theory Spec2Isabelle
  imports Complex_Main
begin

section \<open>The waste-classification station (PR4/main.py)\<close>

text \<open>
  A shallow embedding of \<^verbatim>\<open>WasteClassificationSystem\<close>. Python floats (distances,
  time stamps, confidences) are modelled by \<^typ>\<open>real\<close>: the code only adds, subtracts,
  scales and compares them. Every \<^verbatim>\<open>time.time()\<close> call is a value handed in by the
  environment, every call into the hardware (GPIO, LED strip, camera, classifier, GUI)
  is an outcome handed in by the environment, and an exception of such a call is a
  branch of the model.
\<close>

subsection \<open>Configuration constants\<close>

text \<open>
  The block \<^verbatim>\<open>DETECTION CONFIGURATION\<close> of module-level globals. The methods read the
  globals when they run, so the model reads them from a record; \<open>module_config\<close> holds
  the values the file assigns.
\<close>

record config =
  MOTION_THRESHOLD :: real
  LIGHT_ON_DURATION :: real
  MEASUREMENT_INTERVAL :: real
  CAMERA_TIMEOUT :: real
  CLASSIFICATION_DELAY :: real

definition module_config :: config where
  "module_config =
     \<lparr> MOTION_THRESHOLD = 50, LIGHT_ON_DURATION = 10, MEASUREMENT_INTERVAL = 2 / 10,
       CAMERA_TIMEOUT = 15, CLASSIFICATION_DELAY = 1 \<rparr>"

definition LABEL_MAPPING :: "string \<rightharpoonup> string" where
  "LABEL_MAPPING =
     map_of [(''plastic'', ''PLASTIC''), (''paper'', ''PAPER''),
             (''cardboard'', ''CARDBOARD''), (''organic'', ''ORGANIC''),
             (''green-glass'', ''GLASS'')]"

subsection \<open>State of the controller\<close>

text \<open>
  The attributes \<^verbatim>\<open>__init__\<close> creates. \<open>picam2\<close> and \<open>model\<close> are opaque handles
  that are \<^verbatim>\<open>None\<close> after a failed initialisation. The LED strip and the OLED
  display are output devices whose contents no method reads back; they are not part of
  the state. \<open>effects\<close> is not an attribute of the class: it logs, oldest first, the
  external calls and console messages a run performed, so that "how often" can be
  stated.
\<close>

datatype handle = Handle

datatype effect =
    CaptureFrame      \<comment> \<open>\<^verbatim>\<open>self.picam2.capture_array()\<close> was called\<close>
  | RunInference      \<comment> \<open>\<^verbatim>\<open>self.model(frame, verbose=False)\<close> was called\<close>
  | ResetToWaiting    \<comment> \<open>the reset branch printed "Camera idle - waiting for motion..."\<close>
  | CloseWindows      \<comment> \<open>\<^verbatim>\<open>cv2.destroyAllWindows()\<close> was called from the loop\<close>
  | LightsOn          \<comment> \<open>\<^verbatim>\<open>turn_on_lights\<close> printed "Lights ON ..."\<close>
  | LightsOff         \<comment> \<open>the loop printed "Lights OFF"\<close>

record state =
  picam2 :: "handle option"
  model :: "handle option"
  lights_on_until :: real
  camera_active_until :: real
  previous_distance :: "real option"
  last_classification :: string
  classification_confidence :: real
  is_running :: bool
  last_classification_time :: real
  camera_window_open :: bool
  effects :: "effect list"

text \<open>
  \<^verbatim>\<open>initialize_camera_and_model\<close> either sets both handles or, when anything in its
  \<^verbatim>\<open>try\<close> raises, sets both to \<^verbatim>\<open>None\<close>. \<open>init_state ok\<close> is the state at the end
  of \<^verbatim>\<open>__init__\<close>.
\<close>

definition init_state :: "bool \<Rightarrow> state" where
  "init_state ok =
     \<lparr> picam2 = (if ok then Some Handle else None),
       model = (if ok then Some Handle else None),
       lights_on_until = 0, camera_active_until = 0, previous_distance = None,
       last_classification = ''WAITING...'', classification_confidence = 0,
       is_running = True, last_classification_time = 0, camera_window_open = False,
       effects = [] \<rparr>"

subsection \<open>Motion by distance change\<close>

definition detect_motion :: "real \<Rightarrow> state \<Rightarrow> bool \<times> state" where
  "detect_motion current_distance s =
     (case previous_distance s of
        None \<Rightarrow> (False, s\<lparr>previous_distance := Some current_distance\<rparr>)
      | Some prev \<Rightarrow>
          (let distance_change = \<bar>current_distance - prev\<bar>
           in (distance_change > 5, s\<lparr>previous_distance := Some current_distance\<rparr>)))"

text \<open>
  Feeding a sequence of samples to \<open>detect_motion\<close>, one call per sample, and
  collecting the answers. (A driver for statements about sample sequences; the class
  has no such method.)
\<close>

fun detect_motion_seq :: "real list \<Rightarrow> state \<Rightarrow> bool list" where
  "detect_motion_seq [] s = []"
| "detect_motion_seq (d # ds) s =
     fst (detect_motion d s) # detect_motion_seq ds (snd (detect_motion d s))"

subsection \<open>Illumination\<close>

text \<open>
  \<open>turn_on_lights\<close>: \<open>pixels_ok\<close> says that neither a pixel assignment nor
  \<^verbatim>\<open>self.pixels.show()\<close> raised; \<open>now\<close> is the value of \<^verbatim>\<open>time.time()\<close>. When a
  write raises, the handler only prints and the expiry is not touched.
\<close>

definition turn_on_lights :: "config \<Rightarrow> bool \<Rightarrow> real \<Rightarrow> state \<Rightarrow> state" where
  "turn_on_lights cfg pixels_ok now s =
     (if pixels_ok
      then s\<lparr>lights_on_until := now + LIGHT_ON_DURATION cfg,
             effects := effects s @ [LightsOn]\<rparr>
      else s)"

text \<open>\<open>turn_off_lights\<close> writes the strip only; it changes no attribute.\<close>

definition turn_off_lights :: "state \<Rightarrow> state" where
  "turn_off_lights s = s"

definition should_lights_be_on :: "real \<Rightarrow> state \<Rightarrow> bool" where
  "should_lights_be_on now s \<longleftrightarrow> now < lights_on_until s"

subsection \<open>Range sensor\<close>

text \<open>
  What \<open>measure_distance\<close> sees of the world: whether the trigger pulse could be
  written, the value of the \<open>i\<close>-th \<^verbatim>\<open>lgpio.gpio_read(self.h, ECHO_PIN)\<close> of the call
  (\<open>None\<close>: the read raises) and the value of the \<open>j\<close>-th \<^verbatim>\<open>time.time()\<close> of the call.
\<close>

record sensor_env =
  trigger_ok :: bool
  echo :: "nat \<Rightarrow> int option"
  clock :: "nat \<Rightarrow> real"

text \<open>
  How a busy-wait loop ends: its condition became false (\<open>Exited\<close>, with the time
  variable, the next echo read and the next clock read), its deadline test returned
  \<^verbatim>\<open>None\<close> (\<open>TimedOut\<close>), or a read raised (\<open>ReadFault\<close>); the last two carry the
  number of clock values read so far.
\<close>

datatype wait_result = Exited real nat nat | TimedOut nat | ReadFault nat

text \<open>
  Both loops have the shape
  \<^verbatim>\<open>while gpio_read(ECHO) == level: t = time.time(); if t > timeout: return None\<close>,
  the first with \<open>level = 0\<close> and \<open>t = start_time\<close>, the second with \<open>level = 1\<close> and
  \<open>t = end_time\<close>. Nothing bounds the number of iterations, so the loop is a partial
  function: \<open>None\<close> is a loop that never ends.
\<close>

partial_function (option) wait_while ::
  "int \<Rightarrow> sensor_env \<Rightarrow> real \<Rightarrow> real \<Rightarrow> nat \<Rightarrow> nat \<Rightarrow> wait_result option" where
  "wait_while level env timeout t i j =
     (case echo env i of
        None \<Rightarrow> Some (ReadFault j)
      | Some v \<Rightarrow>
          if v = level
          then (let t' = clock env j
                in if t' > timeout then Some (TimedOut (Suc j))
                   else wait_while level env timeout t' (Suc i) (Suc j))
          else Some (Exited t (Suc i) j))"

text \<open>
  \<open>measure_distance\<close> returns the distance or \<^verbatim>\<open>None\<close>, paired here with the number of
  clock values the call read (the last one read is the time at which it returned).
\<close>

definition measure_distance :: "sensor_env \<Rightarrow> (real option \<times> nat) option" where
  "measure_distance env =
     (if \<not> trigger_ok env then Some (None, 0)
      else
        let start_time = clock env 0;
            timeout = start_time + 1 / 10
        in Option.bind (wait_while 0 env timeout start_time 0 1) (\<lambda>r1.
             case r1 of
               TimedOut n \<Rightarrow> Some (None, n)
             | ReadFault n \<Rightarrow> Some (None, n)
             | Exited start_time i j \<Rightarrow>
                 let end_time = clock env j
                 in Option.bind (wait_while 1 env timeout end_time i (Suc j)) (\<lambda>r2.
                      case r2 of
                        TimedOut n \<Rightarrow> Some (None, n)
                      | ReadFault n \<Rightarrow> Some (None, n)
                      | Exited end_time i' j' \<Rightarrow>
                          let pulse_duration = end_time - start_time;
                              distance = (pulse_duration * 34300) / 2
                          in Some (Some distance, j'))))"

text \<open>\<open>is_dark\<close>: the LDR read, or \<^verbatim>\<open>False\<close> when the read raises.\<close>

definition is_dark :: "int option \<Rightarrow> bool" where
  "is_dark ldr = (case ldr of None \<Rightarrow> False | Some v \<Rightarrow> v = 1)"

subsection \<open>Classification\<close>

text \<open>
  Of a YOLO box the loop reads two values: \<^verbatim>\<open>float(box.conf[0])\<close> and the class name
  \<^verbatim>\<open>result.names[int(box.cls[0])]\<close>. A result is its \<^verbatim>\<open>boxes\<close> attribute, which may
  be \<^verbatim>\<open>None\<close>.
\<close>

record box =
  conf :: real
  label :: string

type_synonym result = "box list option"

fun scan_boxes :: "box list \<Rightarrow> string \<times> real \<Rightarrow> string \<times> real" where
  "scan_boxes [] acc = acc"
| "scan_boxes (b # bs) (best_category, highest_conf) =
     (let confidence = conf b * 100
      in if confidence > 60 \<and> confidence > highest_conf
         then (case LABEL_MAPPING (label b) of
                 Some category \<Rightarrow> scan_boxes bs (category, confidence)
               | None \<Rightarrow> scan_boxes bs (best_category, highest_conf))
         else scan_boxes bs (best_category, highest_conf))"

fun scan_results :: "result list \<Rightarrow> string \<times> real \<Rightarrow> string \<times> real" where
  "scan_results [] acc = acc"
| "scan_results (r # rs) acc =
     (case r of
        None \<Rightarrow> scan_results rs acc
      | Some bs \<Rightarrow> scan_results rs (scan_boxes bs acc))"

text \<open>
  The pair written to \<open>last_classification\<close> and \<open>classification_confidence\<close>:
  lines 244-277. \<^verbatim>\<open>if best_category:\<close> tests for a non-empty string.
\<close>

definition select_best :: "result list \<Rightarrow> string \<times> real" where
  "select_best results =
     (case scan_results results ('''', 0) of
        (best_category, highest_conf) \<Rightarrow>
          if best_category \<noteq> '''' then (best_category, highest_conf)
          else (''UNIDENTIFIED'', 0))"

text \<open>
  What one call of \<open>classify_waste\<close> sees: the clock, what \<^verbatim>\<open>capture_array()\<close> does
  (it raises, or returns a frame that is \<^verbatim>\<open>None\<close> or has \<^verbatim>\<open>size\<close> \<open>n\<close>), whether
  \<^verbatim>\<open>cv2.namedWindow\<close> succeeds, what the model returns (\<open>None\<close>: it raises), and
  whether the remaining calls of the \<^verbatim>\<open>try\<close> block (\<^verbatim>\<open>frame.copy\<close>, \<^verbatim>\<open>putText\<close>,
  \<^verbatim>\<open>imshow\<close>, \<^verbatim>\<open>waitKey\<close>) succeed.
\<close>

datatype capture_outcome = CaptureRaises | Captured "nat option"

record camera_env =
  time_classify :: real
  capture :: capture_outcome
  named_window_ok :: bool
  inference :: "result list option"
  render_ok :: bool

text \<open>
  The body of the \<^verbatim>\<open>try\<close>. \<open>Inl s\<close>: an exception was raised, \<open>s\<close> is the state
  reached; \<open>Inr s\<close>: the block was left by \<^verbatim>\<open>return\<close> or at its end. A failing
  \<^verbatim>\<open>frame.copy()\<close> raises before the two result attributes are written and a failing
  \<^verbatim>\<open>imshow\<close> after; the handler overwrites both attributes, so one flag covers both.
\<close>

definition classify_try :: "camera_env \<Rightarrow> real \<Rightarrow> state \<Rightarrow> state + state" where
  "classify_try env current_time s0 =
     (let s1 = s0\<lparr>effects := effects s0 @ [CaptureFrame]\<rparr>
      in case capture env of
           CaptureRaises \<Rightarrow> Inl s1
         | Captured frame \<Rightarrow>
             (case frame of
                None \<Rightarrow> Inr s1
              | Some frame_size \<Rightarrow>
                  if frame_size = 0 then Inr s1
                  else if \<not> camera_window_open s1 \<and> \<not> named_window_ok env then Inl s1
                  else
                    let s2 = s1\<lparr>camera_window_open := True,
                                effects := effects s1 @ [RunInference]\<rparr>
                    in case inference env of
                         None \<Rightarrow> Inl s2
                       | Some results \<Rightarrow>
                           (case select_best results of
                              (category, confidence) \<Rightarrow>
                                let s3 = s2\<lparr>last_classification := category,
                                            classification_confidence := confidence\<rparr>
                                in if render_ok env
                                   then Inr (s3\<lparr>last_classification_time := current_time\<rparr>)
                                   else Inl s3)))"

definition classify_waste :: "config \<Rightarrow> camera_env \<Rightarrow> state \<Rightarrow> state" where
  "classify_waste cfg env s =
     (if picam2 s = None \<or> model s = None then s
      else
        let current_time = time_classify env
        in if current_time - last_classification_time s < CLASSIFICATION_DELAY cfg then s
           else (case classify_try env current_time s of
                   Inr s' \<Rightarrow> s'
                 | Inl s' \<Rightarrow> s'\<lparr>last_classification := ''CAMERA ERROR'',
                                  classification_confidence := 0\<rparr>))"

subsection \<open>The monitoring loop\<close>

text \<open>
  What one iteration of \<open>sensor_monitoring_loop\<close> sees: the value
  \<open>measure_distance\<close> returned, the LDR read, the clock values in the order the
  iteration reads them, and the outcomes of the hardware calls. \<open>update_display\<close>
  and the final \<^verbatim>\<open>time.sleep\<close> change no attribute and are left out.
\<close>

record tick_env =
  distance_reading :: "real option"
  ldr_reading :: "int option"
  time_camera_arm :: real
  pixels_ok :: bool
  time_lights_on :: real
  time_current :: real
  camera :: camera_env
  destroy_ok :: bool
  time_lights_check :: real

text \<open>Lines 349-361: the decision on the distance sample.\<close>

definition detection_step :: "config \<Rightarrow> tick_env \<Rightarrow> state \<Rightarrow> state" where
  "detection_step cfg env s =
     (case distance_reading env of
        None \<Rightarrow> s
      | Some distance \<Rightarrow>
          let object_detected = distance \<le> MOTION_THRESHOLD cfg;
              dark_environment = is_dark (ldr_reading env);
              s1 = (if object_detected
                    then s\<lparr>camera_active_until := time_camera_arm env + CAMERA_TIMEOUT cfg\<rparr>
                    else s)
          in if object_detected \<and> dark_environment
             then turn_on_lights cfg (pixels_ok env) (time_lights_on env) s1
             else s1)"

text \<open>
  Lines 364-377: classify while the camera window is active, reset once it is not.
  \<open>Inl\<close>: \<^verbatim>\<open>cv2.destroyAllWindows()\<close> raised, which ends the iteration in the loop's
  handler.
\<close>

definition camera_step :: "config \<Rightarrow> tick_env \<Rightarrow> state \<Rightarrow> state + state" where
  "camera_step cfg env s =
     (let current_time = time_current env
      in if current_time < camera_active_until s \<and> picam2 s \<noteq> None
         then Inr (classify_waste cfg (camera env) s)
         else if current_time \<ge> camera_active_until s
         then
           let s1 = (if last_classification s \<noteq> ''WAITING...''
                     then s\<lparr>last_classification := ''WAITING...'',
                            classification_confidence := 0,
                            effects := effects s @ [ResetToWaiting]\<rparr>
                     else s)
           in if camera_window_open s1
              then (let s2 = s1\<lparr>effects := effects s1 @ [CloseWindows]\<rparr>
                    in if destroy_ok env then Inr (s2\<lparr>camera_window_open := False\<rparr>)
                       else Inl s2)
              else Inr s1
         else Inr s)"

text \<open>Lines 380-383.\<close>

definition lights_step :: "tick_env \<Rightarrow> state \<Rightarrow> state" where
  "lights_step env s =
     (if \<not> should_lights_be_on (time_lights_check env) s \<and> lights_on_until s > 0
      then (turn_off_lights s)\<lparr>lights_on_until := 0, effects := effects s @ [LightsOff]\<rparr>
      else s)"

text \<open>One iteration of the \<^verbatim>\<open>while\<close> loop.\<close>

definition loop_iteration :: "config \<Rightarrow> tick_env \<Rightarrow> state \<Rightarrow> state" where
  "loop_iteration cfg env s =
     (case camera_step cfg env (detection_step cfg env s) of
        Inl s' \<Rightarrow> s'
      | Inr s' \<Rightarrow> lights_step env s')"

text \<open>The loop, run for as many iterations as there are environments.\<close>

fun sensor_monitoring_loop :: "config \<Rightarrow> tick_env list \<Rightarrow> state \<Rightarrow> state" where
  "sensor_monitoring_loop cfg [] s = s"
| "sensor_monitoring_loop cfg (env # envs) s =
     (if is_running s then sensor_monitoring_loop cfg envs (loop_iteration cfg env s) else s)"

subsection \<open>Notions used in the statements\<close>

text \<open>
  The boxes of all results in the order the two nested loops visit them, and what the
  acceptance rule calls a qualifying detection: confidence above 60 percent and a label
  that is a key of \<open>LABEL_MAPPING\<close>.
\<close>

definition all_boxes :: "result list \<Rightarrow> box list" where
  "all_boxes results = concat (map (\<lambda>r. case r of None \<Rightarrow> [] | Some bs \<Rightarrow> bs) results)"

definition qualifies :: "box \<Rightarrow> bool" where
  "qualifies b \<longleftrightarrow> conf b * 100 > 60 \<and> label b \<in> dom LABEL_MAPPING"

text \<open>A model output with three boxes, and a call that runs to completion on it.\<close>

definition example_results :: "result list" where
  "example_results =
     [Some [\<lparr>conf = 55 / 100, label = ''plastic''\<rparr>, \<lparr>conf = 72 / 100, label = ''paper''\<rparr>,
            \<lparr>conf = 99 / 100, label = ''unknown''\<rparr>]]"

definition example_camera_env :: camera_env where
  "example_camera_env =
     \<lparr> time_classify = 2, capture = Captured (Some 921600), named_window_ok = True,
       inference = Some example_results, render_ok = True \<rparr>"

text \<open>
  Environments for scenarios: a call of \<open>classify_waste\<close> at clock value \<open>t\<close> and an
  iteration of the loop all of whose clock values are \<open>t\<close>, both with every GUI and LED
  call succeeding.
\<close>

definition camera_at :: "real \<Rightarrow> capture_outcome \<Rightarrow> result list option \<Rightarrow> camera_env" where
  "camera_at t cap res =
     \<lparr> time_classify = t, capture = cap, named_window_ok = True, inference = res,
       render_ok = True \<rparr>"

definition tick_at :: "real \<Rightarrow> real option \<Rightarrow> int option \<Rightarrow> camera_env \<Rightarrow> tick_env" where
  "tick_at t d ldr cam =
     \<lparr> distance_reading = d, ldr_reading = ldr, time_camera_arm = t, pixels_ok = True,
       time_lights_on = t, time_current = t, camera = cam, destroy_ok = True,
       time_lights_check = t \<rparr>"

text \<open>The state of a controller without camera or model that shows the waiting label.\<close>

definition no_camera_waiting :: "state \<Rightarrow> bool" where
  "no_camera_waiting s \<longleftrightarrow>
     (picam2 s = None \<or> model s = None) \<and> last_classification s = ''WAITING...''"

text \<open>
  The scenario of four iterations at clock values 0, 1, 2, 3 with distance samples
  100, 100, 40, 100 in a dark environment; \<open>cam\<close> gives the camera's behaviour in each
  iteration.
\<close>

definition scenario_envs :: "(nat \<Rightarrow> camera_env) \<Rightarrow> tick_env list" where
  "scenario_envs cam =
     [tick_at 0 (Some 100) (Some 1) (cam 0), tick_at 1 (Some 100) (Some 1) (cam 1),
      tick_at 2 (Some 40) (Some 1) (cam 2), tick_at 3 (Some 100) (Some 1) (cam 3)]"



text \<open>
  Three behaviours of the range sensor: the echo line stuck low and stuck high with
  clock values 30 ms apart, and a pulse that is high for two consecutive reads with
  clock values 1 ms apart.
\<close>

definition stuck_low_env :: sensor_env where
  "stuck_low_env = \<lparr> trigger_ok = True, echo = (\<lambda>i. Some 0), clock = (\<lambda>j. real j * 3 / 100) \<rparr>"

definition stuck_high_env :: sensor_env where
  "stuck_high_env = \<lparr> trigger_ok = True, echo = (\<lambda>i. Some 1), clock = (\<lambda>j. real j * 3 / 100) \<rparr>"

definition pulse_env :: sensor_env where
  "pulse_env = \<lparr> trigger_ok = True, echo = (\<lambda>i. Some (if 2 \<le> i \<and> i < 4 then 1 else 0)),
                  clock = (\<lambda>j. real j / 1000) \<rparr>"

text \<open>
  A sequence of calls of \<open>turn_on_lights\<close>, oldest first, each given by whether its LED
  writes succeed and by the clock value it reads. (A driver for statements about the
  last call; the class has no such method.)
\<close>

fun turn_on_lights_calls :: "config \<Rightarrow> (bool \<times> real) list \<Rightarrow> state \<Rightarrow> state" where
  "turn_on_lights_calls cfg [] s = s"
| "turn_on_lights_calls cfg ((ok, t) # cs) s =
     turn_on_lights_calls cfg cs (turn_on_lights cfg ok t s)"

text \<open>
  An echo line that is low for three reads and high from then on, with clock values
  30 ms apart.
\<close>

definition late_rise_env :: sensor_env where
  "late_rise_env = \<lparr> trigger_ok = True, echo = (\<lambda>i. Some (if i < 3 then 0 else 1)),
                      clock = (\<lambda>j. real j * 3 / 100) \<rparr>"

section \<open>Properties\<close>

subsection \<open>Failed classification attempts\<close>

lemma classify_waste_empty_frame:
  assumes "picam2 s \<noteq> None" "model s \<noteq> None"
    and "CLASSIFICATION_DELAY cfg \<le> time_classify env - last_classification_time s"
    and "capture env = Captured None \<or> capture env = Captured (Some 0)"
  shows "classify_waste cfg env s = s\<lparr>effects := effects s @ [CaptureFrame]\<rparr>"
  using assms by (auto simp: classify_waste_def classify_try_def Let_def)

lemma classify_waste_raises:
  assumes "picam2 s \<noteq> None" "model s \<noteq> None"
    and "CLASSIFICATION_DELAY cfg \<le> time_classify env - last_classification_time s"
    and "classify_try env (time_classify env) s = Inl s'"
  shows "classify_waste cfg env s =
           s'\<lparr>last_classification := ''CAMERA ERROR'', classification_confidence := 0\<rparr>"
  using assms by (auto simp: classify_waste_def Let_def)

lemma classify_try_Inl_time:
  "classify_try env t s = Inl s' \<Longrightarrow> last_classification_time s' = last_classification_time s"
  by (auto simp: classify_try_def Let_def
          split: capture_outcome.splits option.splits if_splits prod.splits)

lemma classify_try_capture_raises:
  "capture env = CaptureRaises \<Longrightarrow> \<exists>s'. classify_try env t s = Inl s'"
  by (simp add: classify_try_def Let_def)

lemma classify_try_inference_raises:
  "capture env = Captured (Some n) \<Longrightarrow> n \<noteq> 0 \<Longrightarrow> inference env = None
     \<Longrightarrow> \<exists>s'. classify_try env t s = Inl s'"
  by (simp add: classify_try_def Let_def)

text \<open>
  C1, as the code has it. In a call of \<open>classify_waste\<close> with camera and model present
  and the cooldown elapsed: when the captured frame is \<^verbatim>\<open>None\<close> or empty the call
  returns with every attribute unchanged (only the capture has happened), so the result
  does not become the camera-error label; when the capture or the inference raises, the
  result becomes the camera-error label with confidence 0 and \<open>last_classification_time\<close>
  keeps its old value, so the failed attempt does not consume the cooldown.
\<close>

theorem C1_failed_attempt_leaves_cooldown_unchanged:
  assumes "picam2 s \<noteq> None" and "model s \<noteq> None"
    and "CLASSIFICATION_DELAY cfg \<le> time_classify env - last_classification_time s"
  shows "(capture env = Captured None \<or> capture env = Captured (Some 0) \<longrightarrow>
            classify_waste cfg env s = s\<lparr>effects := effects s @ [CaptureFrame]\<rparr>) \<and>
         (capture env = CaptureRaises \<or>
          (\<exists>n. capture env = Captured (Some n) \<and> n \<noteq> 0 \<and> inference env = None) \<longrightarrow>
            last_classification (classify_waste cfg env s) = ''CAMERA ERROR'' \<and>
            classification_confidence (classify_waste cfg env s) = 0 \<and>
            last_classification_time (classify_waste cfg env s) = last_classification_time s)"
proof (intro conjI impI)
  assume "capture env = Captured None \<or> capture env = Captured (Some 0)"
  with assms show "classify_waste cfg env s = s\<lparr>effects := effects s @ [CaptureFrame]\<rparr>"
    by (intro classify_waste_empty_frame)
next
  assume "capture env = CaptureRaises \<or>
          (\<exists>n. capture env = Captured (Some n) \<and> n \<noteq> 0 \<and> inference env = None)"
  then obtain s' where r: "classify_try env (time_classify env) s = Inl s'"
    using classify_try_capture_raises classify_try_inference_raises by blast
  from classify_waste_raises [OF assms r] classify_try_Inl_time [OF r]
  show "last_classification (classify_waste cfg env s) = ''CAMERA ERROR''"
    and "classification_confidence (classify_waste cfg env s) = 0"
    and "last_classification_time (classify_waste cfg env s) = last_classification_time s"
    by simp_all
qed

theorem C1_witness:
  "picam2 (init_state True) \<noteq> None \<and> model (init_state True) \<noteq> None \<and>
   CLASSIFICATION_DELAY module_config
     \<le> time_classify (camera_at 2 (Captured None) None) - last_classification_time (init_state True) \<and>
   CLASSIFICATION_DELAY module_config
     \<le> time_classify (camera_at 2 CaptureRaises None) - last_classification_time (init_state True) \<and>
   classify_waste module_config (camera_at 2 (Captured None) None) (init_state True)
     = (init_state True)\<lparr>effects := [CaptureFrame]\<rparr> \<and>
   last_classification (classify_waste module_config (camera_at 2 CaptureRaises None) (init_state True))
     = ''CAMERA ERROR'' \<and>
   last_classification_time
     (classify_waste module_config (camera_at 2 CaptureRaises None) (init_state True)) = 0"
proof -
  have h: "picam2 (init_state True) \<noteq> None" "model (init_state True) \<noteq> None"
    by (simp_all add: init_state_def)
  have d1: "CLASSIFICATION_DELAY module_config
     \<le> time_classify (camera_at 2 (Captured None) None) - last_classification_time (init_state True)"
    by (simp add: module_config_def camera_at_def init_state_def)
  have d2: "CLASSIFICATION_DELAY module_config
     \<le> time_classify (camera_at 2 CaptureRaises None) - last_classification_time (init_state True)"
    by (simp add: module_config_def camera_at_def init_state_def)
  from C1_failed_attempt_leaves_cooldown_unchanged [OF h d1]
       C1_failed_attempt_leaves_cooldown_unchanged [OF h d2]
  show ?thesis using h d1 d2 by (simp add: camera_at_def init_state_def)
qed

text \<open>
  The claim as stated fails: from the initial state, at clock value 2, a frame that is
  \<^verbatim>\<open>None\<close> or empty leaves the waiting label in place, and a raising capture or
  inference leaves \<open>last_classification_time\<close> at 0 where a completed attempt sets it
  to 2.
\<close>

theorem C1_counterexample:
  "picam2 (init_state True) \<noteq> None \<and> model (init_state True) \<noteq> None \<and>
   CLASSIFICATION_DELAY module_config
     \<le> time_classify (camera_at 2 (Captured None) None) - last_classification_time (init_state True) \<and>
   last_classification (classify_waste module_config (camera_at 2 (Captured None) None) (init_state True))
     \<noteq> ''CAMERA ERROR'' \<and>
   last_classification (classify_waste module_config (camera_at 2 (Captured (Some 0)) None) (init_state True))
     \<noteq> ''CAMERA ERROR'' \<and>
   last_classification_time
     (classify_waste module_config (camera_at 2 (Captured (Some 921600)) (Some example_results))
        (init_state True)) = 2 \<and>
   last_classification_time
     (classify_waste module_config (camera_at 2 CaptureRaises None) (init_state True)) = 0 \<and>
   last_classification_time
     (classify_waste module_config (camera_at 2 (Captured (Some 921600)) None) (init_state True)) = 0"
  by (simp add: classify_waste_def classify_try_def camera_at_def init_state_def module_config_def
        Let_def example_results_def select_best_def LABEL_MAPPING_def)

subsection \<open>Selection of the best detection\<close>

lemma scan_boxes_append:
  "scan_boxes (xs @ ys) acc = scan_boxes ys (scan_boxes xs acc)"
proof (induction xs arbitrary: acc)
  case Nil
  show ?case by simp
next
  case (Cons b xs)
  obtain c h where acc: "acc = (c, h)" by (cases acc)
  show ?case unfolding acc by (simp add: Let_def Cons.IH split: option.splits)
qed

lemma scan_results_all_boxes: "scan_results rs acc = scan_boxes (all_boxes rs) acc"
proof (induction rs arbitrary: acc)
  case Nil
  show ?case by (simp add: all_boxes_def)
next
  case (Cons r rs)
  have "all_boxes (r # rs) = (case r of None \<Rightarrow> [] | Some bs \<Rightarrow> bs) @ all_boxes rs"
    by (simp add: all_boxes_def)
  then show ?case by (simp add: Cons.IH scan_boxes_append split: option.splits)
qed

lemma scan_boxes_inv:
  "scan_boxes bs (c, h) = (c', h') \<Longrightarrow>
     h \<le> h' \<and>
     (\<forall>b \<in> set bs. qualifies b \<longrightarrow> conf b * 100 \<le> h') \<and>
     ((c', h') = (c, h) \<or>
      (\<exists>b \<in> set bs. qualifies b \<and> LABEL_MAPPING (label b) = Some c' \<and> conf b * 100 = h'))"
proof (induction bs arbitrary: c h)
  case Nil
  then show ?case by simp
next
  case (Cons b bs)
  show ?case
  proof (cases "conf b * 100 > 60 \<and> conf b * 100 > h")
    case False
    with Cons.prems have "scan_boxes bs (c, h) = (c', h')"
      by (auto simp: Let_def split: if_splits)
    from Cons.IH [OF this] False show ?thesis by (auto simp: qualifies_def)
  next
    case True
    show ?thesis
    proof (cases "LABEL_MAPPING (label b)")
      case None
      with True Cons.prems have "scan_boxes bs (c, h) = (c', h')"
        by (auto simp: Let_def split: if_splits)
      from Cons.IH [OF this] None show ?thesis by (auto simp: qualifies_def)
    next
      case (Some cat)
      with True Cons.prems have "scan_boxes bs (cat, conf b * 100) = (c', h')"
        by (auto simp: Let_def split: if_splits)
      from Cons.IH [OF this] True Some show ?thesis by (auto simp: qualifies_def)
    qed
  qed
qed

lemma LABEL_MAPPING_nonempty: "LABEL_MAPPING l = Some c \<Longrightarrow> c \<noteq> ''''"
  by (auto simp: LABEL_MAPPING_def split: if_splits)

lemma select_best_none:
  assumes "\<forall>b \<in> set (all_boxes results). \<not> qualifies b"
  shows "select_best results = (''UNIDENTIFIED'', 0)"
proof -
  obtain c h where r: "scan_boxes (all_boxes results) ('''', 0) = (c, h)"
    by (cases "scan_boxes (all_boxes results) ('''', 0)")
  from scan_boxes_inv [OF r] assms have "(c, h) = ('''', 0)" by blast
  with r show ?thesis by (simp add: select_best_def scan_results_all_boxes)
qed

lemma select_best_some:
  assumes "\<exists>b \<in> set (all_boxes results). qualifies b"
  shows "\<exists>b \<in> set (all_boxes results). \<exists>c. qualifies b \<and> LABEL_MAPPING (label b) = Some c \<and>
           select_best results = (c, conf b * 100) \<and>
           (\<forall>b' \<in> set (all_boxes results). qualifies b' \<longrightarrow> conf b' * 100 \<le> conf b * 100)"
proof -
  obtain c h where r: "scan_boxes (all_boxes results) ('''', 0) = (c, h)"
    by (cases "scan_boxes (all_boxes results) ('''', 0)")
  note inv = scan_boxes_inv [OF r]
  from assms obtain b0 where b0: "b0 \<in> set (all_boxes results)" "qualifies b0" by blast
  with inv have "conf b0 * 100 \<le> h" by blast
  with b0(2) have "h > 60" by (simp add: qualifies_def)
  then have "(c, h) \<noteq> ('''', 0)" by simp
  with inv obtain b where b: "b \<in> set (all_boxes results)" "qualifies b"
    "LABEL_MAPPING (label b) = Some c" "conf b * 100 = h" by blast
  from b(3) have "c \<noteq> ''''" by (rule LABEL_MAPPING_nonempty)
  with r b(4) have "select_best results = (c, conf b * 100)"
    by (simp add: select_best_def scan_results_all_boxes)
  moreover from inv b(4)
  have "\<forall>b' \<in> set (all_boxes results). qualifies b' \<longrightarrow> conf b' * 100 \<le> conf b * 100"
    by simp
  ultimately show ?thesis using b by blast
qed

lemma classify_waste_completes:
  assumes "picam2 s \<noteq> None" "model s \<noteq> None"
    and "CLASSIFICATION_DELAY cfg \<le> time_classify env - last_classification_time s"
    and "capture env = Captured (Some n)" "n \<noteq> 0"
    and "camera_window_open s \<or> named_window_ok env"
    and "inference env = Some results" "render_ok env"
  shows "classify_waste cfg env s =
           s\<lparr>camera_window_open := True,
             effects := effects s @ [CaptureFrame, RunInference],
             last_classification := fst (select_best results),
             classification_confidence := snd (select_best results),
             last_classification_time := time_classify env\<rparr>"
  using assms
  by (auto simp: classify_waste_def classify_try_def Let_def split: prod.splits)

text \<open>
  C2. Over any model output, the pair the selection writes is decided by the qualifying
  boxes alone (confidence above 60 percent, label a key of the mapping table): when no
  box qualifies it is UNIDENTIFIED with confidence 0; otherwise it is the mapped category
  and the confidence of a qualifying box that no qualifying box exceeds. On the three
  boxes (plastic, 55), (paper, 72), (unknown, 99) it is (PAPER, 72). A call of
  \<open>classify_waste\<close> that runs to completion writes exactly this pair to
  \<open>last_classification\<close> and \<open>classification_confidence\<close>.
\<close>

theorem C2_selection_keeps_highest_qualifying_detection:
  "((\<forall>b \<in> set (all_boxes results). \<not> qualifies b) \<longrightarrow>
      select_best results = (''UNIDENTIFIED'', 0)) \<and>
   ((\<exists>b \<in> set (all_boxes results). qualifies b) \<longrightarrow>
      (\<exists>b \<in> set (all_boxes results). \<exists>c.
          qualifies b \<and> LABEL_MAPPING (label b) = Some c \<and>
          select_best results = (c, conf b * 100) \<and>
          (\<forall>b' \<in> set (all_boxes results). qualifies b' \<longrightarrow> conf b' * 100 \<le> conf b * 100))) \<and>
   select_best example_results = (''PAPER'', 72) \<and>
   (picam2 s \<noteq> None \<and> model s \<noteq> None \<and>
    CLASSIFICATION_DELAY cfg \<le> time_classify env - last_classification_time s \<and>
    capture env = Captured (Some n) \<and> n \<noteq> 0 \<and>
    (camera_window_open s \<or> named_window_ok env) \<and>
    inference env = Some results \<and> render_ok env \<longrightarrow>
      (last_classification (classify_waste cfg env s),
       classification_confidence (classify_waste cfg env s)) = select_best results)"
proof (intro conjI impI)
  assume "\<forall>b \<in> set (all_boxes results). \<not> qualifies b"
  then show "select_best results = (''UNIDENTIFIED'', 0)" by (rule select_best_none)
next
  assume "\<exists>b \<in> set (all_boxes results). qualifies b"
  then show "\<exists>b \<in> set (all_boxes results). \<exists>c.
          qualifies b \<and> LABEL_MAPPING (label b) = Some c \<and>
          select_best results = (c, conf b * 100) \<and>
          (\<forall>b' \<in> set (all_boxes results). qualifies b' \<longrightarrow> conf b' * 100 \<le> conf b * 100)"
    by (rule select_best_some)
next
  show "select_best example_results = (''PAPER'', 72)"
    by (simp add: example_results_def select_best_def LABEL_MAPPING_def Let_def)
next
  assume a: "picam2 s \<noteq> None \<and> model s \<noteq> None \<and>
    CLASSIFICATION_DELAY cfg \<le> time_classify env - last_classification_time s \<and>
    capture env = Captured (Some n) \<and> n \<noteq> 0 \<and>
    (camera_window_open s \<or> named_window_ok env) \<and>
    inference env = Some results \<and> render_ok env"
  then have "classify_waste cfg env s =
           s\<lparr>camera_window_open := True,
             effects := effects s @ [CaptureFrame, RunInference],
             last_classification := fst (select_best results),
             classification_confidence := snd (select_best results),
             last_classification_time := time_classify env\<rparr>"
    by (intro classify_waste_completes) auto
  then show "(last_classification (classify_waste cfg env s),
       classification_confidence (classify_waste cfg env s)) = select_best results"
    by simp
qed

theorem C2_witness:
  "(\<exists>b \<in> set (all_boxes example_results). qualifies b) \<and>
   \<not> (\<forall>b \<in> set (all_boxes example_results). qualifies b) \<and>
   select_best example_results = (''PAPER'', 72) \<and>
   last_classification (classify_waste module_config example_camera_env (init_state True)) = ''PAPER'' \<and>
   classification_confidence (classify_waste module_config example_camera_env (init_state True)) = 72 \<and>
   \<not> qualifies \<lparr>conf = 55 / 100, label = ''plastic''\<rparr> \<and>
   all_boxes [Some [\<lparr>conf = 55 / 100, label = ''plastic''\<rparr>], None]
     = [\<lparr>conf = 55 / 100, label = ''plastic''\<rparr>] \<and>
   select_best [Some [\<lparr>conf = 55 / 100, label = ''plastic''\<rparr>], None] = (''UNIDENTIFIED'', 0)"
proof -
  have q: "\<exists>b \<in> set (all_boxes example_results). qualifies b"
    by (simp add: all_boxes_def example_results_def qualifies_def LABEL_MAPPING_def)
  have nq: "\<not> (\<forall>b \<in> set (all_boxes example_results). qualifies b)"
    by (simp add: all_boxes_def example_results_def qualifies_def LABEL_MAPPING_def)
  have n: "\<forall>b \<in> set (all_boxes [Some [\<lparr>conf = 55 / 100, label = ''plastic''\<rparr>], None]). \<not> qualifies b"
    by (simp add: all_boxes_def qualifies_def)
  have pre: "picam2 (init_state True) \<noteq> None \<and> model (init_state True) \<noteq> None \<and>
    CLASSIFICATION_DELAY module_config
      \<le> time_classify example_camera_env - last_classification_time (init_state True) \<and>
    capture example_camera_env = Captured (Some 921600) \<and> (921600::nat) \<noteq> 0 \<and>
    (camera_window_open (init_state True) \<or> named_window_ok example_camera_env) \<and>
    inference example_camera_env = Some example_results \<and> render_ok example_camera_env"
    by (simp add: init_state_def module_config_def example_camera_env_def)
  note inst1 = C2_selection_keeps_highest_qualifying_detection
      [of example_results "init_state True" module_config example_camera_env 921600]
  note inst2 = C2_selection_keeps_highest_qualifying_detection
      [of "[Some [\<lparr>conf = 55 / 100, label = ''plastic''\<rparr>], None]" "init_state True" module_config
          example_camera_env 921600]
  from inst1 pre have "select_best example_results = (''PAPER'', 72)"
    and "(last_classification (classify_waste module_config example_camera_env (init_state True)),
       classification_confidence (classify_waste module_config example_camera_env (init_state True)))
       = select_best example_results"
    by blast+
  moreover from inst2 n
  have "select_best [Some [\<lparr>conf = 55 / 100, label = ''plastic''\<rparr>], None] = (''UNIDENTIFIED'', 0)"
    by blast
  moreover have "\<not> qualifies \<lparr>conf = 55 / 100, label = ''plastic''\<rparr>"
    by (simp add: qualifies_def)
  moreover have "all_boxes [Some [\<lparr>conf = 55 / 100, label = ''plastic''\<rparr>], None]
     = [\<lparr>conf = 55 / 100, label = ''plastic''\<rparr>]"
    by (simp add: all_boxes_def)
  ultimately show ?thesis using q nq by simp
qed

subsection \<open>Illumination window\<close>

lemma turn_on_lights_calls_expiry:
  "lights_on_until (turn_on_lights_calls cfg cs s) =
     (if filter fst cs = [] then lights_on_until s
      else snd (last (filter fst cs)) + LIGHT_ON_DURATION cfg)"
proof (induction cs arbitrary: s)
  case Nil
  show ?case by simp
next
  case (Cons c cs)
  obtain ok t where c: "c = (ok, t)" by (cases c)
  show ?case
    unfolding c by (simp add: Cons.IH turn_on_lights_def)
qed

text \<open>
  C3, as the code has it. A call of \<open>turn_on_lights\<close> whose LED writes succeed sets the
  expiry to its clock value plus \<open>LIGHT_ON_DURATION\<close>, whatever the expiry was, and
  \<open>should_lights_be_on\<close> is then true exactly at the clock values below it. A call
  whose LED write raises changes nothing. Hence after any sequence of calls,
  \<open>should_lights_be_on\<close> at \<open>now\<close> is true exactly when \<open>now\<close> is below the clock value
  of the last call that succeeded plus \<open>LIGHT_ON_DURATION\<close> (below the expiry the
  sequence started with, if no call succeeded). A further call, succeeding or not, made
  when the clock has not run backwards since a successful one does not move the expiry
  to an earlier value.
\<close>

theorem C3_lights_active_until_last_successful_call_plus_duration:
  "(should_lights_be_on now (turn_on_lights cfg True t1 s) \<longleftrightarrow> now < t1 + LIGHT_ON_DURATION cfg) \<and>
   lights_on_until (turn_on_lights cfg True t2 s) = t2 + LIGHT_ON_DURATION cfg \<and>
   turn_on_lights cfg False t2 s = s \<and>
   (should_lights_be_on now (turn_on_lights_calls cfg cs s) \<longleftrightarrow>
      now < (if filter fst cs = [] then lights_on_until s
             else snd (last (filter fst cs)) + LIGHT_ON_DURATION cfg)) \<and>
   (t1 \<le> t2 \<longrightarrow>
      lights_on_until (turn_on_lights cfg True t1 s)
        \<le> lights_on_until (turn_on_lights cfg ok t2 (turn_on_lights cfg True t1 s)))"
  by (simp add: turn_on_lights_def should_lights_be_on_def turn_on_lights_calls_expiry)

theorem C3_witness:
  "(3::real) \<le> 7 \<and>
   lights_on_until (turn_on_lights module_config True 3 (init_state True)) = 13 \<and>
   lights_on_until (turn_on_lights module_config True 7
                      (turn_on_lights module_config True 3 (init_state True))) = 17 \<and>
   lights_on_until (turn_on_lights module_config False 7
                      (turn_on_lights module_config True 3 (init_state True))) = 13 \<and>
   should_lights_be_on 16
     (turn_on_lights_calls module_config [(True, 3), (False, 5), (True, 7), (False, 8)]
        (init_state True)) \<and>
   \<not> should_lights_be_on 17
     (turn_on_lights_calls module_config [(True, 3), (False, 5), (True, 7), (False, 8)]
        (init_state True))"
proof -
  note a = C3_lights_active_until_last_successful_call_plus_duration
             [where cfg = module_config and s = "init_state True" and now = 16 and ?t1.0 = 3
                and ?t2.0 = 7 and ok = True
                and cs = "[(True, 3), (False, 5), (True, 7), (False, 8)]"]
  note b = C3_lights_active_until_last_successful_call_plus_duration
             [where cfg = module_config and s = "init_state True" and now = 17 and ?t1.0 = 3
                and ?t2.0 = 7 and ok = False
                and cs = "[(True, 3), (False, 5), (True, 7), (False, 8)]"]
  from a b show ?thesis
    by (simp add: module_config_def turn_on_lights_def)
qed

text \<open>
  The claim as stated fails when an LED write raises: a call at clock value 3 succeeds
  and a call at 7 raises. The expiry is still 13, not 17, so at clock value 14, which
  is below the time of the last call plus the duration, the lights are not to be on.
\<close>

theorem C3_counterexample:
  "lights_on_until (turn_on_lights module_config False 7
                      (turn_on_lights module_config True 3 (init_state True))) = 13 \<and>
   (14::real) < 7 + LIGHT_ON_DURATION module_config \<and>
   \<not> should_lights_be_on 14
       (turn_on_lights module_config False 7
          (turn_on_lights module_config True 3 (init_state True)))"
  by (simp add: turn_on_lights_def should_lights_be_on_def module_config_def)

subsection \<open>Reset when the camera window has expired\<close>












subsection \<open>The range sensor returns\<close>

lemma wait_while_result:
  assumes late: "\<And>m. k \<le> m \<Longrightarrow> timeout < clock env m"
  shows "\<exists>r. wait_while level env timeout t i j = Some r \<and>
           (case r of
              TimedOut n \<Rightarrow> j < n \<and> timeout < clock env (n - 1) \<and>
                 (\<forall>m. j \<le> m \<and> m < n - 1 \<longrightarrow> clock env m \<le> timeout)
            | Exited t' i' j' \<Rightarrow> j \<le> j' \<and> i < i' \<and>
                 (\<forall>m. j \<le> m \<and> m < j' \<longrightarrow> clock env m \<le> timeout) \<and>
                 (\<exists>v. echo env (i' - 1) = Some v \<and> v \<noteq> level)
            | ReadFault n \<Rightarrow> j \<le> n \<and> (\<forall>m. j \<le> m \<and> m < n \<longrightarrow> clock env m \<le> timeout) \<and>
                 (\<exists>i' \<ge> i. echo env i' = None))"
proof (induction "k - j" arbitrary: i j t)
  case 0
  then have "timeout < clock env j" using late by simp
  then show ?case
    by (subst wait_while.simps) (auto simp: Let_def split: option.splits)
next
  case (Suc d)
  show ?case
  proof (cases "echo env i")
    case None
    then show ?thesis by (subst wait_while.simps) auto
  next
    case (Some v)
    show ?thesis
    proof (cases "v = level \<and> \<not> timeout < clock env j")
      case False
      with Some show ?thesis
        by (subst wait_while.simps) (auto simp: Let_def)
    next
      case True
      from Suc.hyps(2) have "d = k - Suc j" by simp
      from Suc.hyps(1) [OF this, of "clock env j" "Suc i"] obtain r where
        r: "wait_while level env timeout (clock env j) (Suc i) (Suc j) = Some r"
        and p: "case r of
              TimedOut n \<Rightarrow> Suc j < n \<and> timeout < clock env (n - 1) \<and>
                 (\<forall>m. Suc j \<le> m \<and> m < n - 1 \<longrightarrow> clock env m \<le> timeout)
            | Exited t' i' j' \<Rightarrow> Suc j \<le> j' \<and> Suc i < i' \<and>
                 (\<forall>m. Suc j \<le> m \<and> m < j' \<longrightarrow> clock env m \<le> timeout) \<and>
                 (\<exists>v. echo env (i' - 1) = Some v \<and> v \<noteq> level)
            | ReadFault n \<Rightarrow> Suc j \<le> n \<and>
                 (\<forall>m. Suc j \<le> m \<and> m < n \<longrightarrow> clock env m \<le> timeout) \<and>
                 (\<exists>i' \<ge> Suc i. echo env i' = None)"
        by blast
      have step: "wait_while level env timeout t i j = Some r"
        using Some True r by (subst wait_while.simps) (simp add: Let_def)
      have ext: "\<forall>m. j \<le> m \<and> m < N \<longrightarrow> clock env m \<le> timeout"
        if "\<forall>m. Suc j \<le> m \<and> m < N \<longrightarrow> clock env m \<le> timeout" for N
      proof (intro allI impI)
        fix m assume m: "j \<le> m \<and> m < N"
        show "clock env m \<le> timeout"
        proof (cases "m = j")
          case True
          with \<open>v = level \<and> \<not> timeout < clock env j\<close> show ?thesis by simp
        next
          case False
          with m have "Suc j \<le> m \<and> m < N" by simp
          with that show ?thesis by blast
        qed
      qed
      show ?thesis
      proof (cases r)
        case (Exited t' i' j')
        with p have a: "Suc j \<le> j'" "Suc i < i'"
          "\<forall>m. Suc j \<le> m \<and> m < j' \<longrightarrow> clock env m \<le> timeout"
          "\<exists>v. echo env (i' - 1) = Some v \<and> v \<noteq> level" by simp_all
        from a(1,2) have "j \<le> j'" "i < i'" by simp_all
        with ext [OF a(3)] a(4) step Exited show ?thesis by simp
      next
        case (TimedOut n)
        with p have a: "Suc j < n" "timeout < clock env (n - 1)"
          "\<forall>m. Suc j \<le> m \<and> m < n - 1 \<longrightarrow> clock env m \<le> timeout" by simp_all
        from a(1) have "j < n" by simp
        with ext [OF a(3)] a(2) step TimedOut show ?thesis by simp
      next
        case (ReadFault n)
        with p have a: "Suc j \<le> n"
          "\<forall>m. Suc j \<le> m \<and> m < n \<longrightarrow> clock env m \<le> timeout"
          "\<exists>i' \<ge> Suc i. echo env i' = None" by simp_all
        from a(3) obtain i' where "Suc i \<le> i'" "echo env i' = None" by auto
        then have "\<exists>i' \<ge> i. echo env i' = None" by (auto dest: Suc_leD)
        moreover from a(1) have "j \<le> n" by simp
        ultimately show ?thesis using ext [OF a(2)] step ReadFault by simp
      qed
    qed
  qed
qed

lemma wait_while_stuck:
  assumes late: "\<And>m. k \<le> m \<Longrightarrow> timeout < clock env m"
    and stuck: "\<And>i. echo env i = Some level"
  shows "\<exists>n. wait_while level env timeout t i j = Some (TimedOut n) \<and>
           j < n \<and> timeout < clock env (n - 1) \<and>
           (\<forall>m. j \<le> m \<and> m < n - 1 \<longrightarrow> clock env m \<le> timeout)"
proof -
  from wait_while_result [OF late, where level = level and t = t and i = i and j = j] obtain r where
    r: "wait_while level env timeout t i j = Some r"
    and p: "case r of
              TimedOut n \<Rightarrow> j < n \<and> timeout < clock env (n - 1) \<and>
                 (\<forall>m. j \<le> m \<and> m < n - 1 \<longrightarrow> clock env m \<le> timeout)
            | Exited t' i' j' \<Rightarrow> j \<le> j' \<and> i < i' \<and>
                 (\<forall>m. j \<le> m \<and> m < j' \<longrightarrow> clock env m \<le> timeout) \<and>
                 (\<exists>v. echo env (i' - 1) = Some v \<and> v \<noteq> level)
            | ReadFault n \<Rightarrow> j \<le> n \<and> (\<forall>m. j \<le> m \<and> m < n \<longrightarrow> clock env m \<le> timeout) \<and>
                 (\<exists>i' \<ge> i. echo env i' = None)"
    by blast
  show ?thesis
  proof (cases r)
    case (TimedOut n)
    with r p show ?thesis by simp
  next
    case (Exited t' i' j')
    with p stuck show ?thesis by simp
  next
    case (ReadFault n)
    with p stuck show ?thesis by simp
  qed
qed

lemma measure_distance_returns:
  assumes late: "\<And>m. k \<le> m \<Longrightarrow> clock env 0 + 1 / 10 < clock env m"
  shows "\<exists>r n. measure_distance env = Some (r, n)"
proof (cases "trigger_ok env")
  case False
  then show ?thesis by (simp add: measure_distance_def)
next
  case True
  from wait_while_result [OF late, where level = 0 and t = "clock env 0" and i = 0 and j = 1] obtain r1 where
    r1: "wait_while 0 env (clock env 0 + 1 / 10) (clock env 0) 0 1 = Some r1" by blast
  show ?thesis
  proof (cases r1)
    case (TimedOut n)
    with True r1 show ?thesis by (simp add: measure_distance_def Let_def)
  next
    case (ReadFault n)
    with True r1 show ?thesis by (simp add: measure_distance_def Let_def)
  next
    case (Exited t1 i1 j1)
    from wait_while_result [OF late, where level = 1 and t = "clock env j1" and i = i1 and j = "Suc j1"] obtain r2 where
      r2: "wait_while 1 env (clock env 0 + 1 / 10) (clock env j1) i1 (Suc j1) = Some r2"
      by blast
    with True r1 Exited show ?thesis
      by (cases r2) (simp_all add: measure_distance_def Let_def)
  qed
qed

lemma measure_distance_bound:
  assumes late: "\<And>m. k \<le> m \<Longrightarrow> clock env 0 + 1 / 10 < clock env m"
    and gap: "\<And>m. clock env (Suc m) \<le> clock env m + g" and g: "0 \<le> g"
  shows "\<exists>r n. measure_distance env = Some (r, n) \<and>
           clock env (n - 1) \<le> clock env 0 + 1 / 10 + 2 * g"
proof (cases "trigger_ok env")
  case False
  then have "measure_distance env = Some (None, 0)" by (simp add: measure_distance_def)
  with g show ?thesis by simp
next
  case True
  define D where "D = clock env 0 + 1 / 10"
  have late': "D < clock env m" if "k \<le> m" for m using late [OF that] by (simp add: D_def)
  have c0: "clock env 0 \<le> D" by (simp add: D_def)
  have step: "clock env (Suc m) \<le> B + g" if "clock env m \<le> B" for m B
    using gap [of m] that by linarith
  from wait_while_result [OF late', where level = 0 and t = "clock env 0" and i = 0
                            and j = "Suc 0"]
  obtain r1 where r1: "wait_while 0 env D (clock env 0) 0 (Suc 0) = Some r1"
    and p1: "case r1 of
              TimedOut n \<Rightarrow> Suc 0 < n \<and> D < clock env (n - 1) \<and>
                 (\<forall>m. Suc 0 \<le> m \<and> m < n - 1 \<longrightarrow> clock env m \<le> D)
            | Exited t' i' j' \<Rightarrow> Suc 0 \<le> j' \<and> 0 < i' \<and>
                 (\<forall>m. Suc 0 \<le> m \<and> m < j' \<longrightarrow> clock env m \<le> D) \<and>
                 (\<exists>v. echo env (i' - 1) = Some v \<and> v \<noteq> 0)
            | ReadFault n \<Rightarrow> Suc 0 \<le> n \<and> (\<forall>m. Suc 0 \<le> m \<and> m < n \<longrightarrow> clock env m \<le> D) \<and>
                 (\<exists>i' \<ge> 0. echo env i' = None)"
    by blast
  show ?thesis
  proof (cases r1)
    case (TimedOut n)
    with True r1 have m: "measure_distance env = Some (None, n)"
      by (simp add: measure_distance_def Let_def D_def)
    from p1 TimedOut have n: "Suc 0 < n"
      and t: "\<forall>m. Suc 0 \<le> m \<and> m < n - 1 \<longrightarrow> clock env m \<le> D" by simp_all
    from n obtain q where q: "n - 1 = Suc q" by (cases "n - 1") auto
    have "clock env q \<le> D"
    proof (cases q)
      case 0
      with c0 show ?thesis by simp
    next
      case (Suc q')
      with q t show ?thesis by simp
    qed
    from step [OF this] g have "clock env (n - 1) \<le> D + 2 * g" unfolding q by linarith
    with m show ?thesis by (simp add: D_def)
  next
    case (ReadFault n)
    with True r1 have m: "measure_distance env = Some (None, n)"
      by (simp add: measure_distance_def Let_def D_def)
    from p1 ReadFault have n: "Suc 0 \<le> n"
      and t: "\<forall>m. Suc 0 \<le> m \<and> m < n \<longrightarrow> clock env m \<le> D" by simp_all
    have "clock env (n - 1) \<le> D"
    proof (cases "n - 1")
      case 0
      with c0 show ?thesis by simp
    next
      case (Suc q')
      with n t show ?thesis by simp
    qed
    with g have "clock env (n - 1) \<le> D + 2 * g" by linarith
    with m show ?thesis by (simp add: D_def)
  next
    case (Exited t1 i1 j1)
    from p1 Exited have j1: "Suc 0 \<le> j1"
      and t1: "\<forall>m. Suc 0 \<le> m \<and> m < j1 \<longrightarrow> clock env m \<le> D" by simp_all
    have before: "clock env m \<le> D" if "m < j1" for m
    proof (cases m)
      case 0
      with c0 show ?thesis by simp
    next
      case (Suc m')
      with that t1 show ?thesis by simp
    qed
    from j1 obtain p where p: "j1 = Suc p" by (cases j1) auto
    then have "clock env p \<le> D" using before [of p] by simp
    from step [OF this] have cj1: "clock env j1 \<le> D + g" unfolding p .
    from wait_while_result [OF late', where level = 1 and t = "clock env j1" and i = i1
                              and j = "Suc j1"]
    obtain r2 where r2: "wait_while 1 env D (clock env j1) i1 (Suc j1) = Some r2"
      and p2: "case r2 of
              TimedOut n \<Rightarrow> Suc j1 < n \<and> D < clock env (n - 1) \<and>
                 (\<forall>m. Suc j1 \<le> m \<and> m < n - 1 \<longrightarrow> clock env m \<le> D)
            | Exited t' i' j' \<Rightarrow> Suc j1 \<le> j' \<and> i1 < i' \<and>
                 (\<forall>m. Suc j1 \<le> m \<and> m < j' \<longrightarrow> clock env m \<le> D) \<and>
                 (\<exists>v. echo env (i' - 1) = Some v \<and> v \<noteq> 1)
            | ReadFault n \<Rightarrow> Suc j1 \<le> n \<and>
                 (\<forall>m. Suc j1 \<le> m \<and> m < n \<longrightarrow> clock env m \<le> D) \<and>
                 (\<exists>i' \<ge> i1. echo env i' = None)"
      by blast
    have upto: "clock env q \<le> D + g" if "j1 \<le> q" "\<forall>m. Suc j1 \<le> m \<and> m \<le> q \<longrightarrow> clock env m \<le> D"
      for q
    proof (cases "q = j1")
      case True
      with cj1 show ?thesis by simp
    next
      case False
      with that have "clock env q \<le> D" by simp
      with g show ?thesis by linarith
    qed
    show ?thesis
    proof (cases r2)
      case (TimedOut n)
      with True r1 r2 Exited have m: "measure_distance env = Some (None, n)"
        by (simp add: measure_distance_def Let_def D_def)
      from p2 TimedOut have n: "Suc j1 < n"
        and t: "\<forall>m. Suc j1 \<le> m \<and> m < n - 1 \<longrightarrow> clock env m \<le> D" by simp_all
      from n obtain q where q: "n - 1 = Suc q" and jq: "j1 \<le> q" by (cases "n - 1") auto
      from t q have "\<forall>m. Suc j1 \<le> m \<and> m \<le> q \<longrightarrow> clock env m \<le> D" by simp
      from upto [OF jq this] have "clock env q \<le> D + g" .
      from step [OF this] have "clock env (n - 1) \<le> D + 2 * g" unfolding q by linarith
      with m show ?thesis by (simp add: D_def)
    next
      case (ReadFault n)
      with True r1 r2 Exited have m: "measure_distance env = Some (None, n)"
        by (simp add: measure_distance_def Let_def D_def)
      from p2 ReadFault have n: "Suc j1 \<le> n"
        and t: "\<forall>m. Suc j1 \<le> m \<and> m < n \<longrightarrow> clock env m \<le> D" by simp_all
      from n have jq: "j1 \<le> n - 1" by simp
      from t n have "\<forall>m. Suc j1 \<le> m \<and> m \<le> n - 1 \<longrightarrow> clock env m \<le> D" by auto
      from upto [OF jq this] g have "clock env (n - 1) \<le> D + 2 * g" by linarith
      with m show ?thesis by (simp add: D_def)
    next
      case (Exited t2 i2 j2)
      with True r1 r2 \<open>r1 = Exited t1 i1 j1\<close>
      have m: "\<exists>d. measure_distance env = Some (Some d, j2)"
        by (simp add: measure_distance_def Let_def D_def)
      from p2 Exited have n: "Suc j1 \<le> j2"
        and t: "\<forall>m. Suc j1 \<le> m \<and> m < j2 \<longrightarrow> clock env m \<le> D" by simp_all
      from n have jq: "j1 \<le> j2 - 1" by simp
      from t n have "\<forall>m. Suc j1 \<le> m \<and> m \<le> j2 - 1 \<longrightarrow> clock env m \<le> D" by auto
      from upto [OF jq this] g have "clock env (j2 - 1) \<le> D + 2 * g" by linarith
      with m show ?thesis by (auto simp: D_def)
    qed
  qed
qed

lemma measure_distance_stuck_low:
  assumes late: "\<And>m. k \<le> m \<Longrightarrow> clock env 0 + 1 / 10 < clock env m"
    and ok: "trigger_ok env" and stuck: "\<And>i. echo env i = Some 0"
  shows "\<exists>n. measure_distance env = Some (None, n) \<and> 1 < n \<and>
           clock env 0 + 1 / 10 < clock env (n - 1) \<and>
           (\<forall>m. m < n - 1 \<longrightarrow> clock env m \<le> clock env 0 + 1 / 10)"
proof -
  from wait_while_stuck [OF late stuck, where t = "clock env 0" and i = 0 and j = 1] obtain n where
    n: "wait_while 0 env (clock env 0 + 1 / 10) (clock env 0) 0 1 = Some (TimedOut n)"
    "1 < n" "clock env 0 + 1 / 10 < clock env (n - 1)"
    "\<forall>m. 1 \<le> m \<and> m < n - 1 \<longrightarrow> clock env m \<le> clock env 0 + 1 / 10"
    by blast
  have "clock env m \<le> clock env 0 + 1 / 10" if "m < n - 1" for m
  proof (cases m)
    case 0
    then show ?thesis by simp
  next
    case (Suc m')
    with that n(4) show ?thesis by simp
  qed
  with n(1-3) ok show ?thesis by (simp add: measure_distance_def Let_def)
qed

lemma measure_distance_stuck_high:
  assumes late: "\<And>m. k \<le> m \<Longrightarrow> clock env 0 + 1 / 10 < clock env m"
    and ok: "trigger_ok env" and stuck: "\<And>i. echo env i = Some 1"
  shows "\<exists>n. measure_distance env = Some (None, n) \<and> 2 < n \<and>
           clock env 0 + 1 / 10 < clock env (n - 1) \<and>
           (\<forall>m. 2 \<le> m \<and> m < n - 1 \<longrightarrow> clock env m \<le> clock env 0 + 1 / 10)"
proof -
  have first: "wait_while 0 env (clock env 0 + 1 / 10) (clock env 0) 0 (Suc 0)
                 = Some (Exited (clock env 0) (Suc 0) (Suc 0))"
    by (subst wait_while.simps) (simp add: stuck)
  from wait_while_stuck [OF late stuck, where t = "clock env (Suc 0)" and i = "Suc 0"
                           and j = "Suc (Suc 0)"]
  obtain n where
    n: "wait_while 1 env (clock env 0 + 1 / 10) (clock env (Suc 0)) (Suc 0) (Suc (Suc 0))
          = Some (TimedOut n)"
    "Suc (Suc 0) < n" "clock env 0 + 1 / 10 < clock env (n - 1)"
    "\<forall>m. Suc (Suc 0) \<le> m \<and> m < n - 1 \<longrightarrow> clock env m \<le> clock env 0 + 1 / 10"
    by blast
  have m: "measure_distance env = Some (None, n)"
    using first n(1) ok by (simp add: measure_distance_def Let_def)
  have two: "Suc (Suc 0) = 2" by simp
  from m n(2-4) show ?thesis unfolding two by blast
qed

lemma measure_distance_stuck_high_example: "measure_distance stuck_high_env = Some (None, 5)"
  by (simp add: measure_distance_def stuck_high_env_def wait_while.simps Let_def)

lemma measure_distance_pulse_example: "measure_distance pulse_env = Some (Some (343 / 10), 5)"
  by (simp add: measure_distance_def pulse_env_def wait_while.simps Let_def)

lemma measure_distance_stuck_lines:
  assumes late: "\<And>m. k \<le> m \<Longrightarrow> clock env 0 + 1 / 10 < clock env m"
  shows "\<exists>r n. measure_distance env = Some (r, n) \<and>
     ((\<forall>i. echo env i = Some 0) \<or> (\<forall>i. echo env i = Some 1) \<longrightarrow> r = None) \<and>
     (trigger_ok env \<and> (\<forall>i. echo env i = Some 0) \<longrightarrow>
        1 < n \<and> clock env 0 + 1 / 10 < clock env (n - 1) \<and>
        (\<forall>m. m < n - 1 \<longrightarrow> clock env m \<le> clock env 0 + 1 / 10) \<and>
        ((\<forall>m. clock env (Suc m) \<le> clock env m + g) \<longrightarrow>
           clock env (n - 1) \<le> clock env 0 + 1 / 10 + g)) \<and>
     (trigger_ok env \<and> (\<forall>i. echo env i = Some 1) \<longrightarrow>
        2 < n \<and> clock env 0 + 1 / 10 < clock env (n - 1) \<and>
        (\<forall>m. 2 \<le> m \<and> m < n - 1 \<longrightarrow> clock env m \<le> clock env 0 + 1 / 10) \<and>
        ((\<forall>m. clock env (Suc m) \<le> clock env m + g) \<and> g \<le> 1 / 10 \<longrightarrow>
           clock env (n - 1) \<le> clock env 0 + 1 / 10 + g))"
proof -
  consider (off) "\<not> trigger_ok env"
    | (low) "trigger_ok env" "\<forall>i. echo env i = Some 0"
    | (high) "trigger_ok env" "\<forall>i. echo env i = Some 1"
    | (other) "\<not> (\<forall>i. echo env i = Some 0)" "\<not> (\<forall>i. echo env i = Some 1)"
    by blast
  then show ?thesis
  proof cases
    case off
    then have "measure_distance env = Some (None, 0)" by (simp add: measure_distance_def)
    with off show ?thesis by simp
  next
    case low
    from low(2) have nh: "\<not> (\<forall>i. echo env i = Some 1)" by simp
    from measure_distance_stuck_low [OF late low(1)] low(2) obtain n where
      n: "measure_distance env = Some (None, n)" "1 < n"
      "clock env 0 + 1 / 10 < clock env (n - 1)"
      "\<forall>m. m < n - 1 \<longrightarrow> clock env m \<le> clock env 0 + 1 / 10"
      by blast
    have "clock env (n - 1) \<le> clock env 0 + 1 / 10 + g"
      if gap: "\<forall>m. clock env (Suc m) \<le> clock env m + g"
    proof -
      from n(2) have s: "n - 1 = Suc (n - 2)" by simp
      from n(2,4) have "clock env (n - 2) \<le> clock env 0 + 1 / 10" by simp
      moreover from gap have "clock env (Suc (n - 2)) \<le> clock env (n - 2) + g" by blast
      ultimately show ?thesis unfolding s by linarith
    qed
    with n nh show ?thesis by blast
  next
    case high
    from high(2) have nl: "\<not> (\<forall>i. echo env i = Some 0)" by simp
    from measure_distance_stuck_high [OF late high(1)] high(2) obtain n where
      n: "measure_distance env = Some (None, n)" "2 < n"
      "clock env 0 + 1 / 10 < clock env (n - 1)"
      "\<forall>m. 2 \<le> m \<and> m < n - 1 \<longrightarrow> clock env m \<le> clock env 0 + 1 / 10"
      by blast
    have "clock env (n - 1) \<le> clock env 0 + 1 / 10 + g"
      if gap: "\<forall>m. clock env (Suc m) \<le> clock env m + g" and g: "g \<le> 1 / 10"
    proof (cases "n = 3")
      case True
      from gap have "clock env (Suc 0) \<le> clock env 0 + g"
        and "clock env (Suc (Suc 0)) \<le> clock env (Suc 0) + g" by blast+
      with g have "clock env (Suc (Suc 0)) \<le> clock env 0 + 1 / 10 + g" by linarith
      moreover from True have "n - 1 = Suc (Suc 0)" by simp
      ultimately show ?thesis by simp
    next
      case False
      with n(2) have s: "n - 1 = Suc (n - 2)" and "2 \<le> n - 2 \<and> n - 2 < n - 1" by auto
      with n(4) have "clock env (n - 2) \<le> clock env 0 + 1 / 10" by blast
      moreover from gap have "clock env (Suc (n - 2)) \<le> clock env (n - 2) + g" by blast
      ultimately show ?thesis unfolding s by linarith
    qed
    with n nl show ?thesis by blast
  next
    case other
    from measure_distance_returns [OF late] obtain r n where
      "measure_distance env = Some (r, n)" by blast
    with other show ?thesis by blast
  qed
qed

lemma measure_distance_late_rise_example: "measure_distance late_rise_env = Some (None, 6)"
  by (simp add: measure_distance_def late_rise_env_def wait_while.simps Let_def)

text \<open>
  C5, as the code has it. \<open>timeout\<close> is computed once, from the first clock value of
  the call, and both loops compare against it. Provided the clock eventually stays
  beyond that deadline (time does not stand still), \<open>measure_distance\<close> returns for
  every behaviour of the echo line, read faults included, with a distance or with the
  no-reading marker; and when consecutive clock values are at most \<open>g\<close> apart, the last
  clock value it reads is at most the deadline plus twice \<open>g\<close>, because the second
  loop's first clock value is read untested. When the line is stuck low or stuck high
  the value returned is the no-reading marker, and (the trigger having been written)
  the call returns at a clock value beyond the deadline that is the first such value
  its loop tests: every clock value tested before it is within the deadline, so the
  call returns no later than the deadline plus \<open>g\<close>; for the line stuck high this uses
  that \<open>g\<close> is no longer than the timeout itself.
\<close>

theorem C5_measure_distance_returns_within_two_granularities:
  assumes late: "\<And>m. k \<le> m \<Longrightarrow> clock env 0 + 1 / 10 < clock env m"
  shows "\<exists>r n. measure_distance env = Some (r, n) \<and>
     ((\<forall>m. clock env (Suc m) \<le> clock env m + g) \<and> 0 \<le> g \<longrightarrow>
        clock env (n - 1) \<le> clock env 0 + 1 / 10 + 2 * g) \<and>
     ((\<forall>i. echo env i = Some 0) \<or> (\<forall>i. echo env i = Some 1) \<longrightarrow> r = None) \<and>
     (trigger_ok env \<and> (\<forall>i. echo env i = Some 0) \<longrightarrow>
        1 < n \<and> clock env 0 + 1 / 10 < clock env (n - 1) \<and>
        (\<forall>m. m < n - 1 \<longrightarrow> clock env m \<le> clock env 0 + 1 / 10) \<and>
        ((\<forall>m. clock env (Suc m) \<le> clock env m + g) \<longrightarrow>
           clock env (n - 1) \<le> clock env 0 + 1 / 10 + g)) \<and>
     (trigger_ok env \<and> (\<forall>i. echo env i = Some 1) \<longrightarrow>
        2 < n \<and> clock env 0 + 1 / 10 < clock env (n - 1) \<and>
        (\<forall>m. 2 \<le> m \<and> m < n - 1 \<longrightarrow> clock env m \<le> clock env 0 + 1 / 10) \<and>
        ((\<forall>m. clock env (Suc m) \<le> clock env m + g) \<and> g \<le> 1 / 10 \<longrightarrow>
           clock env (n - 1) \<le> clock env 0 + 1 / 10 + g))"
proof -
  let ?A = "\<lambda>r n. measure_distance env = Some (r, n) \<and>
     ((\<forall>i. echo env i = Some 0) \<or> (\<forall>i. echo env i = Some 1) \<longrightarrow> r = None) \<and>
     (trigger_ok env \<and> (\<forall>i. echo env i = Some 0) \<longrightarrow>
        1 < n \<and> clock env 0 + 1 / 10 < clock env (n - 1) \<and>
        (\<forall>m. m < n - 1 \<longrightarrow> clock env m \<le> clock env 0 + 1 / 10) \<and>
        ((\<forall>m. clock env (Suc m) \<le> clock env m + g) \<longrightarrow>
           clock env (n - 1) \<le> clock env 0 + 1 / 10 + g)) \<and>
     (trigger_ok env \<and> (\<forall>i. echo env i = Some 1) \<longrightarrow>
        2 < n \<and> clock env 0 + 1 / 10 < clock env (n - 1) \<and>
        (\<forall>m. 2 \<le> m \<and> m < n - 1 \<longrightarrow> clock env m \<le> clock env 0 + 1 / 10) \<and>
        ((\<forall>m. clock env (Suc m) \<le> clock env m + g) \<and> g \<le> 1 / 10 \<longrightarrow>
           clock env (n - 1) \<le> clock env 0 + 1 / 10 + g))"
  have "\<exists>r n. ?A r n"
    by (rule measure_distance_stuck_lines [where k = k and g = g]) (rule late, assumption)
  then obtain r n where all: "?A r n" by (elim exE)
  note m = all [THEN conjunct1] and rest = all [THEN conjunct2]
  have b: "(\<forall>m. clock env (Suc m) \<le> clock env m + g) \<and> 0 \<le> g \<longrightarrow>
        clock env (n - 1) \<le> clock env 0 + 1 / 10 + 2 * g"
  proof (rule impI)
    assume a: "(\<forall>m. clock env (Suc m) \<le> clock env m + g) \<and> 0 \<le> g"
    then have gap: "\<And>m. clock env (Suc m) \<le> clock env m + g" and g: "0 \<le> g" by simp_all
    have "\<exists>r' n'. measure_distance env = Some (r', n') \<and>
            clock env (n' - 1) \<le> clock env 0 + 1 / 10 + 2 * g"
      by (rule measure_distance_bound [where k = k]) (rule late, assumption, rule gap, rule g)
    then obtain r' n' where
      m': "measure_distance env = Some (r', n')"
      and b': "clock env (n' - 1) \<le> clock env 0 + 1 / 10 + 2 * g"
      by (elim exE conjE)
    from m m' have "n' = n" by simp
    with b' show "clock env (n - 1) \<le> clock env 0 + 1 / 10 + 2 * g" by simp
  qed
  note big = conjI [OF m conjI [OF b rest]]
  from big show ?thesis by (intro exI)
qed

theorem C5_witness:
  "\<not> (\<exists>m \<ge> 4. clock stuck_low_env m \<le> clock stuck_low_env 0 + 1 / 10) \<and>
   trigger_ok stuck_low_env \<and> (\<forall>i. echo stuck_low_env i = Some 0) \<and>
   (\<forall>m. clock stuck_low_env (Suc m) \<le> clock stuck_low_env m + 3 / 100) \<and>
   measure_distance stuck_low_env = Some (None, 5) \<and>
   clock stuck_low_env 0 + 1 / 10 < clock stuck_low_env 4 \<and>
   clock stuck_low_env 4 \<le> clock stuck_low_env 0 + 1 / 10 + 3 / 100 \<and>
   trigger_ok stuck_high_env \<and> (\<forall>i. echo stuck_high_env i = Some 1) \<and>
   (\<forall>m. clock stuck_high_env (Suc m) \<le> clock stuck_high_env m + 3 / 100) \<and>
   measure_distance stuck_high_env = Some (None, 5) \<and>
   clock stuck_high_env 4 \<le> clock stuck_high_env 0 + 1 / 10 + 3 / 100 \<and>
   \<not> (\<exists>m \<ge> 4. clock late_rise_env m \<le> clock late_rise_env 0 + 1 / 10) \<and>
   (\<forall>m. clock late_rise_env (Suc m) \<le> clock late_rise_env m + 3 / 100) \<and>
   measure_distance late_rise_env = Some (None, 6) \<and>
   clock late_rise_env 5 \<le> clock late_rise_env 0 + 1 / 10 + 2 * (3 / 100)"
proof -
  have low_part: "\<not> (\<exists>m \<ge> 4. clock stuck_low_env m \<le> clock stuck_low_env 0 + 1 / 10) \<and>
     trigger_ok stuck_low_env \<and> (\<forall>i. echo stuck_low_env i = Some 0) \<and>
     (\<forall>m. clock stuck_low_env (Suc m) \<le> clock stuck_low_env m + 3 / 100) \<and>
     measure_distance stuck_low_env = Some (None, 5) \<and>
     clock stuck_low_env 0 + 1 / 10 < clock stuck_low_env 4 \<and>
     clock stuck_low_env 4 \<le> clock stuck_low_env 0 + 1 / 10 + 3 / 100"
  proof -
    have late: "clock stuck_low_env 0 + 1 / 10 < clock stuck_low_env m" if "4 \<le> m" for m
    proof -
      from that have "4 \<le> real m" by simp
      then show ?thesis by (simp add: stuck_low_env_def)
    qed
    have ok: "trigger_ok stuck_low_env" and low: "\<forall>i. echo stuck_low_env i = Some 0"
      by (simp_all add: stuck_low_env_def)
    have gap: "\<forall>m. clock stuck_low_env (Suc m) \<le> clock stuck_low_env m + 3 / 100"
      by (simp add: stuck_low_env_def field_simps)
    have ev: "measure_distance stuck_low_env = Some (None, 5)"
      by (simp add: measure_distance_def stuck_low_env_def wait_while.simps Let_def)
    from C5_measure_distance_returns_within_two_granularities
           [of 4 stuck_low_env "3 / 100", OF late] ev ok low gap
    have "clock stuck_low_env 0 + 1 / 10 < clock stuck_low_env (5 - 1)"
      and "clock stuck_low_env (5 - 1) \<le> clock stuck_low_env 0 + 1 / 10 + 3 / 100"
      by auto
    then have "clock stuck_low_env 0 + 1 / 10 < clock stuck_low_env 4"
      and "clock stuck_low_env 4 \<le> clock stuck_low_env 0 + 1 / 10 + 3 / 100"
      by simp_all
    moreover have "\<not> (\<exists>m \<ge> 4. clock stuck_low_env m \<le> clock stuck_low_env 0 + 1 / 10)"
    proof
      assume "\<exists>m \<ge> 4. clock stuck_low_env m \<le> clock stuck_low_env 0 + 1 / 10"
      then obtain m where "4 \<le> m" "clock stuck_low_env m \<le> clock stuck_low_env 0 + 1 / 10"
        by blast
      with late [of m] show False by simp
    qed
    ultimately show ?thesis using ok low gap ev by blast
  qed
  have high_part: "trigger_ok stuck_high_env \<and> (\<forall>i. echo stuck_high_env i = Some 1) \<and>
     (\<forall>m. clock stuck_high_env (Suc m) \<le> clock stuck_high_env m + 3 / 100) \<and>
     measure_distance stuck_high_env = Some (None, 5) \<and>
     clock stuck_high_env 4 \<le> clock stuck_high_env 0 + 1 / 10 + 3 / 100"
  proof -
    have late': "clock stuck_high_env 0 + 1 / 10 < clock stuck_high_env m" if "4 \<le> m" for m
    proof -
      from that have "4 \<le> real m" by simp
      then show ?thesis by (simp add: stuck_high_env_def)
    qed
    have ok': "trigger_ok stuck_high_env" and high: "\<forall>i. echo stuck_high_env i = Some 1"
      by (simp_all add: stuck_high_env_def)
    have gap': "\<forall>m. clock stuck_high_env (Suc m) \<le> clock stuck_high_env m + 3 / 100"
      by (simp add: stuck_high_env_def field_simps)
    have g: "(3 / 100 :: real) \<le> 1 / 10" by simp
    have ev': "measure_distance stuck_high_env = Some (None, 5)"
      by (rule measure_distance_stuck_high_example)
    from C5_measure_distance_returns_within_two_granularities
           [of 4 stuck_high_env "3 / 100", OF late'] ev' ok' high gap' g
    have "clock stuck_high_env (5 - 1) \<le> clock stuck_high_env 0 + 1 / 10 + 3 / 100"
      by auto
    then have "clock stuck_high_env 4 \<le> clock stuck_high_env 0 + 1 / 10 + 3 / 100"
      by simp
    with ok' high gap' ev' show ?thesis by blast
  qed
  have rise_part: "\<not> (\<exists>m \<ge> 4. clock late_rise_env m \<le> clock late_rise_env 0 + 1 / 10) \<and>
     (\<forall>m. clock late_rise_env (Suc m) \<le> clock late_rise_env m + 3 / 100) \<and>
     measure_distance late_rise_env = Some (None, 6) \<and>
     clock late_rise_env 5 \<le> clock late_rise_env 0 + 1 / 10 + 2 * (3 / 100)"
  proof -
    have late'': "clock late_rise_env 0 + 1 / 10 < clock late_rise_env m" if "4 \<le> m" for m
    proof -
      from that have "4 \<le> real m" by simp
      then show ?thesis by (simp add: late_rise_env_def)
    qed
    have gap'': "\<forall>m. clock late_rise_env (Suc m) \<le> clock late_rise_env m + 3 / 100"
      by (simp add: late_rise_env_def field_simps)
    have g0: "(0::real) \<le> 3 / 100" by simp
    have ev'': "measure_distance late_rise_env = Some (None, 6)"
      by (rule measure_distance_late_rise_example)
    from C5_measure_distance_returns_within_two_granularities
           [of 4 late_rise_env "3 / 100", OF late''] ev'' gap'' g0
    have "clock late_rise_env (6 - 1) \<le> clock late_rise_env 0 + 1 / 10 + 2 * (3 / 100)"
      by auto
    then have "clock late_rise_env 5 \<le> clock late_rise_env 0 + 1 / 10 + 2 * (3 / 100)"
      by simp
    moreover have "\<not> (\<exists>m \<ge> 4. clock late_rise_env m \<le> clock late_rise_env 0 + 1 / 10)"
    proof
      assume "\<exists>m \<ge> 4. clock late_rise_env m \<le> clock late_rise_env 0 + 1 / 10"
      then obtain m where "4 \<le> m" "clock late_rise_env m \<le> clock late_rise_env 0 + 1 / 10"
        by blast
      with late'' [of m] show False by simp
    qed
    ultimately show ?thesis using gap'' ev'' by blast
  qed
  from low_part high_part rise_part show ?thesis by blast
qed

text \<open>
  The claim as stated fails for a line that rises late and then stays high: with clock
  values 30 ms apart, the first loop leaves at the fourth echo read, the second loop's
  first clock value (120 ms) is read untested, and the call returns the no-reading
  marker at 150 ms, later than the 100 ms deadline plus one step of 30 ms. And for a
  line that carries a pulse the call returns a distance, not the no-reading marker.
\<close>

theorem C5_counterexample:
  "(\<forall>m. clock late_rise_env (Suc m) \<le> clock late_rise_env m + 3 / 100) \<and>
   measure_distance late_rise_env = Some (None, 6) \<and>
   clock late_rise_env 0 + 1 / 10 + 3 / 100 < clock late_rise_env (6 - 1) \<and>
   measure_distance pulse_env = Some (Some (343 / 10), 5)"
proof -
  have "\<forall>m. clock late_rise_env (Suc m) \<le> clock late_rise_env m + 3 / 100"
    by (simp add: late_rise_env_def field_simps)
  moreover have "measure_distance late_rise_env = Some (None, 6)"
    by (simp add: measure_distance_def late_rise_env_def wait_while.simps Let_def)
  moreover have "clock late_rise_env 0 + 1 / 10 + 3 / 100 < clock late_rise_env (6 - 1)"
    by (simp add: late_rise_env_def)
  moreover have "measure_distance pulse_env = Some (Some (343 / 10), 5)"
    by (simp add: measure_distance_def pulse_env_def wait_while.simps Let_def)
  ultimately show ?thesis by blast
qed

subsection \<open>Arming of the camera and light windows\<close>

lemma detection_step_camera:
  "camera_active_until (detection_step cfg env s) =
     (case distance_reading env of
        None \<Rightarrow> camera_active_until s
      | Some d \<Rightarrow> if d \<le> MOTION_THRESHOLD cfg then time_camera_arm env + CAMERA_TIMEOUT cfg
                  else camera_active_until s)"
  by (simp add: detection_step_def turn_on_lights_def Let_def split: option.splits)

lemma detection_step_lights:
  "lights_on_until (detection_step cfg env s) =
     (case distance_reading env of
        None \<Rightarrow> lights_on_until s
      | Some d \<Rightarrow> if d \<le> MOTION_THRESHOLD cfg \<and> is_dark (ldr_reading env) \<and> pixels_ok env
                  then time_lights_on env + LIGHT_ON_DURATION cfg
                  else lights_on_until s)"
  by (simp add: detection_step_def turn_on_lights_def Let_def split: option.splits)

lemma classify_waste_keeps_windows:
  "lights_on_until (classify_waste cfg env s) = lights_on_until s \<and>
   camera_active_until (classify_waste cfg env s) = camera_active_until s \<and>
   is_running (classify_waste cfg env s) = is_running s"
  by (simp add: classify_waste_def classify_try_def Let_def
           split: capture_outcome.splits option.splits prod.splits)

lemma camera_step_keeps_windows:
  "case camera_step cfg env s of
     Inl s' \<Rightarrow> lights_on_until s' = lights_on_until s \<and>
               camera_active_until s' = camera_active_until s \<and> is_running s' = is_running s
   | Inr s' \<Rightarrow> lights_on_until s' = lights_on_until s \<and>
               camera_active_until s' = camera_active_until s \<and> is_running s' = is_running s"
  by (simp add: camera_step_def classify_waste_keeps_windows Let_def)

lemma camera_step_Inr: "destroy_ok env \<Longrightarrow> \<exists>s'. camera_step cfg env s = Inr s'"
  by (simp add: camera_step_def Let_def)

lemma lights_step_keeps_camera:
  "camera_active_until (lights_step env s) = camera_active_until s \<and>
   is_running (lights_step env s) = is_running s"
  by (simp add: lights_step_def turn_off_lights_def)

lemma loop_iteration_camera:
  "camera_active_until (loop_iteration cfg env s) = camera_active_until (detection_step cfg env s)"
  using camera_step_keeps_windows [where cfg = cfg and env = env and s = "detection_step cfg env s"]
  by (auto simp: loop_iteration_def lights_step_keeps_camera split: sum.splits)

lemma loop_iteration_running: "is_running (loop_iteration cfg env s) = is_running s"
proof -
  have "is_running (detection_step cfg env s) = is_running s"
    by (simp add: detection_step_def turn_on_lights_def Let_def split: option.splits)
  with camera_step_keeps_windows [where cfg = cfg and env = env and s = "detection_step cfg env s"] show ?thesis
    by (auto simp: loop_iteration_def lights_step_keeps_camera split: sum.splits)
qed

lemma loop_iteration_lights:
  assumes "destroy_ok env"
  shows "lights_on_until (loop_iteration cfg env s) =
           (if \<not> time_lights_check env < lights_on_until (detection_step cfg env s) \<and>
               lights_on_until (detection_step cfg env s) > 0
            then 0 else lights_on_until (detection_step cfg env s))"
proof -
  from camera_step_Inr [OF assms] obtain s' where
    s': "camera_step cfg env (detection_step cfg env s) = Inr s'" by blast
  with camera_step_keeps_windows [where cfg = cfg and env = env and s = "detection_step cfg env s"]
  have "lights_on_until s' = lights_on_until (detection_step cfg env s)" by simp
  with s' show ?thesis
    by (simp add: loop_iteration_def lights_step_def turn_off_lights_def should_lights_be_on_def)
qed

lemma scenario_lights:
  "lights_on_until (sensor_monitoring_loop (module_config\<lparr>LIGHT_ON_DURATION := 5\<rparr>)
                      (take 1 (scenario_envs cam)) (init_state ok)) = 0"
  "lights_on_until (sensor_monitoring_loop (module_config\<lparr>LIGHT_ON_DURATION := 5\<rparr>)
                      (take 2 (scenario_envs cam)) (init_state ok)) = 0"
  "lights_on_until (sensor_monitoring_loop (module_config\<lparr>LIGHT_ON_DURATION := 5\<rparr>)
                      (take 3 (scenario_envs cam)) (init_state ok)) = 7"
  "lights_on_until (sensor_monitoring_loop (module_config\<lparr>LIGHT_ON_DURATION := 5\<rparr>)
                      (take 4 (scenario_envs cam)) (init_state ok)) = 7"
proof -
  have r: "is_running (init_state ok)" and l: "lights_on_until (init_state ok) = 0"
    by (simp_all add: init_state_def)
  have d: "destroy_ok (tick_at t d ldr c)" for t d ldr c by (simp add: tick_at_def)
  note ev = scenario_envs_def loop_iteration_running loop_iteration_lights [OF d]
    detection_step_lights r l is_dark_def module_config_def
  have f: "distance_reading (tick_at t d ldr c) = d" "ldr_reading (tick_at t d ldr c) = ldr"
    "pixels_ok (tick_at t d ldr c)" "time_lights_on (tick_at t d ldr c) = t"
    "time_lights_check (tick_at t d ldr c) = t" for t d ldr c
    by (simp_all add: tick_at_def)
  show "lights_on_until (sensor_monitoring_loop (module_config\<lparr>LIGHT_ON_DURATION := 5\<rparr>)
                      (take 1 (scenario_envs cam)) (init_state ok)) = 0"
    by (simp add: ev f)
  show "lights_on_until (sensor_monitoring_loop (module_config\<lparr>LIGHT_ON_DURATION := 5\<rparr>)
                      (take 2 (scenario_envs cam)) (init_state ok)) = 0"
    by (simp add: ev f)
  show "lights_on_until (sensor_monitoring_loop (module_config\<lparr>LIGHT_ON_DURATION := 5\<rparr>)
                      (take 3 (scenario_envs cam)) (init_state ok)) = 7"
    by (simp add: ev f)
  show "lights_on_until (sensor_monitoring_loop (module_config\<lparr>LIGHT_ON_DURATION := 5\<rparr>)
                      (take 4 (scenario_envs cam)) (init_state ok)) = 7"
    by (simp add: ev f)
qed

text \<open>
  C6. In an iteration with a distance reading \<open>d\<close>, the object is detected exactly when
  \<open>d \<le> MOTION_THRESHOLD\<close> (50 in the module). When it is, the camera expiry becomes the
  clock value read plus \<open>CAMERA_TIMEOUT\<close> whatever the light sensor says, and otherwise
  it is unchanged; the detection step sets the light expiry to the clock value read plus
  \<open>LIGHT_ON_DURATION\<close> when the object is detected, the environment is dark and the LED
  writes succeed, and leaves it unchanged otherwise. In the scenario with distance
  samples 100, 100, 40, 100 at clock values 0, 1, 2, 3, darkness and
  \<open>LIGHT_ON_DURATION\<close> set to 5, the lights are off after the first two iterations, the
  third sets the expiry to 7, and after the four iterations the lights are on exactly
  at the clock values below 7: on at 3, off at 7 and at 8.
\<close>

theorem C6_detection_arms_camera_always_and_lights_when_dark:
  "(distance_reading env = Some d \<longrightarrow>
      camera_active_until (loop_iteration cfg env s) =
        (if d \<le> MOTION_THRESHOLD cfg then time_camera_arm env + CAMERA_TIMEOUT cfg
         else camera_active_until s) \<and>
      lights_on_until (detection_step cfg env s) =
        (if d \<le> MOTION_THRESHOLD cfg \<and> is_dark (ldr_reading env) \<and> pixels_ok env
         then time_lights_on env + LIGHT_ON_DURATION cfg
         else lights_on_until s)) \<and>
   MOTION_THRESHOLD module_config = 50 \<and>
   \<not> should_lights_be_on 0
       (sensor_monitoring_loop (module_config\<lparr>LIGHT_ON_DURATION := 5\<rparr>)
          (take 1 (scenario_envs cam)) (init_state ok)) \<and>
   \<not> should_lights_be_on 1
       (sensor_monitoring_loop (module_config\<lparr>LIGHT_ON_DURATION := 5\<rparr>)
          (take 2 (scenario_envs cam)) (init_state ok)) \<and>
   lights_on_until
       (sensor_monitoring_loop (module_config\<lparr>LIGHT_ON_DURATION := 5\<rparr>)
          (take 3 (scenario_envs cam)) (init_state ok)) = 2 + 5 \<and>
   should_lights_be_on 2
       (sensor_monitoring_loop (module_config\<lparr>LIGHT_ON_DURATION := 5\<rparr>)
          (take 3 (scenario_envs cam)) (init_state ok)) \<and>
   (\<forall>now. should_lights_be_on now
       (sensor_monitoring_loop (module_config\<lparr>LIGHT_ON_DURATION := 5\<rparr>)
          (scenario_envs cam) (init_state ok)) \<longleftrightarrow> now < 7) \<and>
   should_lights_be_on 3
       (sensor_monitoring_loop (module_config\<lparr>LIGHT_ON_DURATION := 5\<rparr>)
          (scenario_envs cam) (init_state ok)) \<and>
   \<not> should_lights_be_on 7
       (sensor_monitoring_loop (module_config\<lparr>LIGHT_ON_DURATION := 5\<rparr>)
          (scenario_envs cam) (init_state ok)) \<and>
   \<not> should_lights_be_on 8
       (sensor_monitoring_loop (module_config\<lparr>LIGHT_ON_DURATION := 5\<rparr>)
          (scenario_envs cam) (init_state ok))"
proof -
  have g: "distance_reading env = Some d \<longrightarrow>
      camera_active_until (loop_iteration cfg env s) =
        (if d \<le> MOTION_THRESHOLD cfg then time_camera_arm env + CAMERA_TIMEOUT cfg
         else camera_active_until s) \<and>
      lights_on_until (detection_step cfg env s) =
        (if d \<le> MOTION_THRESHOLD cfg \<and> is_dark (ldr_reading env) \<and> pixels_ok env
         then time_lights_on env + LIGHT_ON_DURATION cfg
         else lights_on_until s)"
    by (simp add: loop_iteration_camera detection_step_camera detection_step_lights)
  have m: "MOTION_THRESHOLD module_config = 50" by (simp add: module_config_def)
  have t4: "take 4 (scenario_envs cam) = scenario_envs cam" by (simp add: scenario_envs_def)
  note sl = scenario_lights [of cam ok, unfolded t4]
  show ?thesis
    using g m sl by (simp add: should_lights_be_on_def)
qed

theorem C6_witness:
  "distance_reading (tick_at 2 (Some 40) (Some 1) example_camera_env) = Some 40 \<and>
   camera_active_until
     (loop_iteration module_config (tick_at 2 (Some 40) (Some 1) example_camera_env)
        (init_state True)) = 17 \<and>
   lights_on_until
     (detection_step module_config (tick_at 2 (Some 40) (Some 1) example_camera_env)
        (init_state True)) = 12 \<and>
   distance_reading (tick_at 2 (Some 40) (Some 0) example_camera_env) = Some 40 \<and>
   camera_active_until
     (loop_iteration module_config (tick_at 2 (Some 40) (Some 0) example_camera_env)
        (init_state True)) = 17 \<and>
   lights_on_until
     (detection_step module_config (tick_at 2 (Some 40) (Some 0) example_camera_env)
        (init_state True)) = 0"
proof -
  have d: "distance_reading (tick_at 2 (Some 40) (Some 1) example_camera_env) = Some 40"
    "distance_reading (tick_at 2 (Some 40) (Some 0) example_camera_env) = Some 40"
    by (simp_all add: tick_at_def)
  from d C6_detection_arms_camera_always_and_lights_when_dark
      [where env = "tick_at 2 (Some 40) (Some 1) example_camera_env" and d = 40
         and cfg = module_config and s = "init_state True"]
    C6_detection_arms_camera_always_and_lights_when_dark
      [where env = "tick_at 2 (Some 40) (Some 0) example_camera_env" and d = 40
         and cfg = module_config and s = "init_state True"]
  show ?thesis
    by (simp add: tick_at_def module_config_def is_dark_def init_state_def)
qed

subsection \<open>Cooldown between classifications\<close>

lemma classify_waste_throttled:
  "time_classify env - last_classification_time s < CLASSIFICATION_DELAY cfg
     \<Longrightarrow> classify_waste cfg env s = s"
  by (simp add: classify_waste_def Let_def)

lemma classify_waste_counts:
  "count_list (effects (classify_waste cfg env s)) CaptureFrame
     \<le> count_list (effects s) CaptureFrame + 1 \<and>
   count_list (effects (classify_waste cfg env s)) RunInference
     \<le> count_list (effects s) RunInference + 1"
  by (simp add: classify_waste_def classify_try_def Let_def
          split: capture_outcome.splits option.splits prod.splits)

lemma classify_waste_runs_or_not:
  assumes "capture env = Captured (Some n)" "n \<noteq> 0" "inference env = Some results"
    and "named_window_ok env" "render_ok env"
  shows "classify_waste cfg env s = s \<or>
         (classify_waste cfg env s =
            s\<lparr>camera_window_open := True,
              effects := effects s @ [CaptureFrame, RunInference],
              last_classification := fst (select_best results),
              classification_confidence := snd (select_best results),
              last_classification_time := time_classify env\<rparr>)"
proof (cases "picam2 s = None \<or> model s = None \<or>
              time_classify env - last_classification_time s < CLASSIFICATION_DELAY cfg")
  case True
  then show ?thesis by (auto simp: classify_waste_def Let_def)
next
  case False
  with assms show ?thesis by (intro disjI2 classify_waste_completes) auto
qed

text \<open>
  C7, as the code has it. Take two consecutive calls of \<open>classify_waste\<close> whose clock
  values are less than \<open>CLASSIFICATION_DELAY\<close> apart, the first of which meets a
  non-empty frame and no exception. Then the two calls together perform at most one
  capture and at most one inference: if the first call did anything, the second returns
  the state unchanged. In general a call is a no-op whenever less than
  \<open>CLASSIFICATION_DELAY\<close> has passed since \<open>last_classification_time\<close>, the clock
  value of the last attempt that ran to completion.
\<close>

theorem C7_second_call_within_cooldown_of_completed_attempt_is_noop:
  assumes "\<bar>time_classify env2 - time_classify env1\<bar> < CLASSIFICATION_DELAY cfg"
    and "capture env1 = Captured (Some n)" and "n \<noteq> 0" and "inference env1 = Some results"
    and "named_window_ok env1" and "render_ok env1"
  shows "count_list (effects (classify_waste cfg env2 (classify_waste cfg env1 s))) CaptureFrame
           \<le> count_list (effects s) CaptureFrame + 1 \<and>
         count_list (effects (classify_waste cfg env2 (classify_waste cfg env1 s))) RunInference
           \<le> count_list (effects s) RunInference + 1 \<and>
         (classify_waste cfg env1 s \<noteq> s \<longrightarrow>
            classify_waste cfg env2 (classify_waste cfg env1 s) = classify_waste cfg env1 s) \<and>
         (\<forall>s'. time_classify env2 - last_classification_time s' < CLASSIFICATION_DELAY cfg \<longrightarrow>
            classify_waste cfg env2 s' = s')"
proof -
  let ?s1 = "classify_waste cfg env1 s"
  have noop: "classify_waste cfg env2 ?s1 = ?s1" if "?s1 \<noteq> s"
  proof -
    from that classify_waste_runs_or_not [OF assms(2-6), of cfg s]
    have "last_classification_time ?s1 = time_classify env1" by auto
    with assms(1) have "time_classify env2 - last_classification_time ?s1 < CLASSIFICATION_DELAY cfg"
      by simp
    then show ?thesis by (rule classify_waste_throttled)
  qed
  have counts: "count_list (effects (classify_waste cfg env2 ?s1)) CaptureFrame
           \<le> count_list (effects s) CaptureFrame + 1 \<and>
         count_list (effects (classify_waste cfg env2 ?s1)) RunInference
           \<le> count_list (effects s) RunInference + 1"
  proof (cases "?s1 = s")
    case True
    then show ?thesis using classify_waste_counts [of cfg env2 s] by simp
  next
    case False
    then have "classify_waste cfg env2 ?s1 = ?s1" by (rule noop)
    then show ?thesis using classify_waste_counts [of cfg env1 s] by simp
  qed
  from counts noop classify_waste_throttled show ?thesis by blast
qed

theorem C7_witness:
  "\<bar>time_classify (camera_at (22 / 10) (Captured (Some 921600)) (Some example_results))
      - time_classify example_camera_env\<bar> < CLASSIFICATION_DELAY module_config \<and>
   capture example_camera_env = Captured (Some 921600) \<and> (921600::nat) \<noteq> 0 \<and>
   inference example_camera_env = Some example_results \<and>
   named_window_ok example_camera_env \<and> render_ok example_camera_env \<and>
   classify_waste module_config example_camera_env (init_state True) \<noteq> init_state True \<and>
   classify_waste module_config (camera_at (22 / 10) (Captured (Some 921600)) (Some example_results))
       (classify_waste module_config example_camera_env (init_state True))
     = classify_waste module_config example_camera_env (init_state True) \<and>
   count_list (effects
       (classify_waste module_config (camera_at (22 / 10) (Captured (Some 921600)) (Some example_results))
          (classify_waste module_config example_camera_env (init_state True)))) CaptureFrame \<le> 1"
proof -
  have a: "\<bar>time_classify (camera_at (22 / 10) (Captured (Some 921600)) (Some example_results))
      - time_classify example_camera_env\<bar> < CLASSIFICATION_DELAY module_config"
    by (simp add: camera_at_def example_camera_env_def module_config_def)
  have b: "capture example_camera_env = Captured (Some 921600)" "(921600::nat) \<noteq> 0"
    "inference example_camera_env = Some example_results"
    "named_window_ok example_camera_env" "render_ok example_camera_env"
    by (simp_all add: example_camera_env_def)
  have c: "classify_waste module_config example_camera_env (init_state True) \<noteq> init_state True"
    by (simp add: classify_waste_def classify_try_def example_camera_env_def init_state_def
          module_config_def Let_def split: prod.splits)
  have e: "effects (init_state True) = []" by (simp add: init_state_def)
  note inst = C7_second_call_within_cooldown_of_completed_attempt_is_noop
                [OF a b, of "init_state True"]
  from inst c
  have r2: "classify_waste module_config
              (camera_at (22 / 10) (Captured (Some 921600)) (Some example_results))
              (classify_waste module_config example_camera_env (init_state True))
            = classify_waste module_config example_camera_env (init_state True)"
    by blast
  from inst e
  have r1: "count_list (effects
       (classify_waste module_config (camera_at (22 / 10) (Captured (Some 921600)) (Some example_results))
          (classify_waste module_config example_camera_env (init_state True)))) CaptureFrame \<le> 1"
    by simp
  show ?thesis by (intro conjI a b c r1 r2)
qed

text \<open>
  The claim as stated fails when the first attempt does not complete: a first call at
  clock value 2 whose inference raises (or whose frame display raises after the
  inference) and a second call at 2.2 both capture a frame and both run the model.
\<close>

theorem C7_counterexample:
  "\<bar>time_classify (camera_at (22 / 10) (Captured (Some 921600)) (Some example_results))
      - time_classify (camera_at 2 (Captured (Some 921600)) None)\<bar> < CLASSIFICATION_DELAY module_config \<and>
   effects (classify_waste module_config (camera_at 2 (Captured (Some 921600)) None) (init_state True))
     = [CaptureFrame, RunInference] \<and>
   effects
     (classify_waste module_config (camera_at (22 / 10) (Captured (Some 921600)) (Some example_results))
        (classify_waste module_config (camera_at 2 (Captured (Some 921600)) None) (init_state True)))
     = [CaptureFrame, RunInference, CaptureFrame, RunInference] \<and>
   effects
     (classify_waste module_config (camera_at (22 / 10) (Captured (Some 921600)) (Some example_results))
        (classify_waste module_config (example_camera_env\<lparr>render_ok := False\<rparr>) (init_state True)))
     = [CaptureFrame, RunInference, CaptureFrame, RunInference]"
  by (simp add: classify_waste_def classify_try_def camera_at_def init_state_def module_config_def
        Let_def example_results_def example_camera_env_def select_best_def LABEL_MAPPING_def)

subsection \<open>detect_motion\<close>

lemma detect_motion_seq_length: "length (detect_motion_seq ds s) = length ds"
  by (induction ds arbitrary: s) simp_all

lemma detect_motion_prev: "previous_distance (snd (detect_motion d s)) = Some d"
  by (simp add: detect_motion_def Let_def split: option.splits)

lemma detect_motion_seq_next:
  "previous_distance s = Some p \<Longrightarrow> k < length ds \<Longrightarrow>
   detect_motion_seq ds s ! k = (\<bar>ds ! k - (p # ds) ! k\<bar> > 5)"
proof (induction ds arbitrary: s p k)
  case Nil
  then show ?case by simp
next
  case (Cons d ds)
  have s1: "previous_distance (snd (detect_motion d s)) = Some d"
    by (rule detect_motion_prev)
  show ?case
  proof (cases k)
    case 0
    with Cons.prems(1) show ?thesis
      by (simp add: detect_motion_def Let_def)
  next
    case (Suc j)
    with Cons.prems(2) have "j < length ds" by simp
    from Cons.IH [OF s1 this] Suc show ?thesis
      by simp
  qed
qed

text \<open>
  C8. With no previous sample stored (after construction, or after the stored sample
  was cleared), \<open>detect_motion\<close> answers false and stores the sample; with a previous
  sample \<open>p\<close> it answers true exactly when the current sample differs from \<open>p\<close> by more
  than 5.0 cm, and in both cases the sample it stores is the current one. Hence over any
  sample sequence started with no previous sample, the first answer is false and the
  answer for every later sample compares it with the sample immediately before it.
\<close>

theorem C8_detect_motion_first_false_and_uses_previous_sample:
  "(previous_distance s = None \<longrightarrow> \<not> fst (detect_motion d s)) \<and>
   (\<forall>p. previous_distance s = Some p \<longrightarrow> fst (detect_motion d s) = (\<bar>d - p\<bar> > 5)) \<and>
   previous_distance (snd (detect_motion d s)) = Some d \<and>
   (previous_distance s = None \<longrightarrow>
      length (detect_motion_seq ds s) = length ds \<and>
      (ds \<noteq> [] \<longrightarrow> \<not> detect_motion_seq ds s ! 0) \<and>
      (\<forall>k. Suc k < length ds \<longrightarrow>
         detect_motion_seq ds s ! Suc k = (\<bar>ds ! Suc k - ds ! k\<bar> > 5)))"
proof (intro conjI impI allI)
  assume "previous_distance s = None"
  then show "\<not> fst (detect_motion d s)" by (simp add: detect_motion_def)
next
  fix p assume "previous_distance s = Some p"
  then show "fst (detect_motion d s) = (\<bar>d - p\<bar> > 5)"
    by (simp add: detect_motion_def Let_def)
next
  show "previous_distance (snd (detect_motion d s)) = Some d" by (rule detect_motion_prev)
next
  show "length (detect_motion_seq ds s) = length ds" by (rule detect_motion_seq_length)
next
  assume none: "previous_distance s = None" and ne: "ds \<noteq> []"
  then obtain d0 ds' where ds: "ds = d0 # ds'" by (cases ds) auto
  from none show "\<not> detect_motion_seq ds s ! 0"
    unfolding ds by (simp add: detect_motion_def)
next
  fix k assume none: "previous_distance s = None" and k: "Suc k < length ds"
  then obtain d0 ds' where ds: "ds = d0 # ds'" by (cases ds) auto
  have s1: "previous_distance (snd (detect_motion d0 s)) = Some d0"
    by (rule detect_motion_prev)
  from k ds have "k < length ds'" by simp
  from detect_motion_seq_next [OF s1 this]
  show "detect_motion_seq ds s ! Suc k = (\<bar>ds ! Suc k - ds ! k\<bar> > 5)"
    unfolding ds by simp
qed

theorem C8_witness:
  "previous_distance (init_state True) = None \<and>
   detect_motion_seq [100, 103, 40, 100] (init_state True) = [False, False, True, True]"
  using C8_detect_motion_first_false_and_uses_previous_sample
          [of "init_state True" 100 "[100, 103, 40, 100]"]
  by (simp add: init_state_def detect_motion_def Let_def)

subsection \<open>Failed camera initialisation\<close>

lemma classify_waste_no_handle:
  "picam2 s = None \<or> model s = None \<Longrightarrow> classify_waste cfg env s = s"
  by (auto simp: classify_waste_def)

lemma detection_step_keeps:
  "picam2 (detection_step cfg env s) = picam2 s \<and>
   model (detection_step cfg env s) = model s \<and>
   last_classification (detection_step cfg env s) = last_classification s \<and>
   classification_confidence (detection_step cfg env s) = classification_confidence s \<and>
   camera_window_open (detection_step cfg env s) = camera_window_open s \<and>
   is_running (detection_step cfg env s) = is_running s"
  by (simp add: detection_step_def turn_on_lights_def Let_def split: option.splits)

lemma lights_step_keeps:
  "picam2 (lights_step env s) = picam2 s \<and>
   model (lights_step env s) = model s \<and>
   last_classification (lights_step env s) = last_classification s \<and>
   classification_confidence (lights_step env s) = classification_confidence s \<and>
   camera_window_open (lights_step env s) = camera_window_open s \<and>
   is_running (lights_step env s) = is_running s"
  by (simp add: lights_step_def turn_off_lights_def)

lemma loop_iteration_no_camera:
  assumes "no_camera_waiting s"
  shows "no_camera_waiting (loop_iteration cfg env s)"
proof -
  let ?s1 = "detection_step cfg env s"
  from assms have s1: "no_camera_waiting ?s1"
    by (simp add: no_camera_waiting_def detection_step_keeps)
  then have cw: "classify_waste cfg (camera env) ?s1 = ?s1"
    by (simp add: no_camera_waiting_def classify_waste_no_handle)
  from s1 cw have "case camera_step cfg env ?s1 of Inl s' \<Rightarrow> no_camera_waiting s'
                   | Inr s' \<Rightarrow> no_camera_waiting s'"
    by (simp add: camera_step_def Let_def no_camera_waiting_def)
  then show ?thesis
    by (simp add: loop_iteration_def no_camera_waiting_def lights_step_keeps split: sum.splits)
qed

lemma loop_no_camera:
  "no_camera_waiting s \<Longrightarrow> no_camera_waiting (sensor_monitoring_loop cfg envs s)"
  by (induction envs arbitrary: s) (simp_all add: loop_iteration_no_camera)

text \<open>
  C9. When \<open>picam2\<close> or \<open>model\<close> is \<^verbatim>\<open>None\<close>, \<open>classify_waste\<close> returns the state it
  was given, unchanged in every attribute and without any external call. Hence a
  controller that has no camera or model and shows the waiting label keeps showing it
  after any number of loop iterations, whatever the sensors and the clock do; it never
  shows the camera-error label. The state after a failed initialisation is such a state.
\<close>

theorem C9_failed_init_never_classifies:
  "(picam2 s = None \<or> model s = None \<longrightarrow> classify_waste cfg env s = s) \<and>
   (no_camera_waiting s \<longrightarrow>
      last_classification (sensor_monitoring_loop cfg envs s) = ''WAITING...'' \<and>
      last_classification (sensor_monitoring_loop cfg envs s) \<noteq> ''CAMERA ERROR'') \<and>
   no_camera_waiting (init_state False) \<and>
   last_classification (sensor_monitoring_loop cfg envs (init_state False)) = ''WAITING...''"
proof (intro conjI impI)
  assume "picam2 s = None \<or> model s = None"
  then show "classify_waste cfg env s = s" by (rule classify_waste_no_handle)
next
  assume "no_camera_waiting s"
  then have "no_camera_waiting (sensor_monitoring_loop cfg envs s)" by (rule loop_no_camera)
  then show "last_classification (sensor_monitoring_loop cfg envs s) = ''WAITING...''"
    by (simp add: no_camera_waiting_def)
  then show "last_classification (sensor_monitoring_loop cfg envs s) \<noteq> ''CAMERA ERROR''"
    by simp
next
  show i: "no_camera_waiting (init_state False)"
    by (simp add: no_camera_waiting_def init_state_def)
  from loop_no_camera [OF i]
  show "last_classification (sensor_monitoring_loop cfg envs (init_state False)) = ''WAITING...''"
    by (simp add: no_camera_waiting_def)
qed

theorem C9_witness:
  "(picam2 (init_state False) = None \<or> model (init_state False) = None) \<and>
   no_camera_waiting (init_state False) \<and>
   classify_waste module_config example_camera_env (init_state False) = init_state False \<and>
   last_classification
     (sensor_monitoring_loop module_config
        [tick_at 100 (Some 40) (Some 1) example_camera_env,
         tick_at 116 (Some 100) (Some 1) example_camera_env] (init_state False)) = ''WAITING...''"
  using C9_failed_init_never_classifies
          [of "init_state False" module_config example_camera_env
              "[tick_at 100 (Some 40) (Some 1) example_camera_env,
                tick_at 116 (Some 100) (Some 1) example_camera_env]"]
  by (simp add: init_state_def)

subsection \<open>The stored previous distance does not influence an iteration\<close>

lemma turn_on_lights_pd:
  "turn_on_lights cfg ok t (s\<lparr>previous_distance := p\<rparr>)
     = (turn_on_lights cfg ok t s)\<lparr>previous_distance := p\<rparr>"
  by (simp add: turn_on_lights_def)

lemma detection_step_pd:
  "detection_step cfg env (s\<lparr>previous_distance := p\<rparr>)
     = (detection_step cfg env s)\<lparr>previous_distance := p\<rparr>"
  by (simp add: detection_step_def turn_on_lights_def Let_def split: option.splits)

lemma classify_try_pd:
  "classify_try env t (s\<lparr>previous_distance := p\<rparr>)
     = map_sum (\<lambda>s. s\<lparr>previous_distance := p\<rparr>) (\<lambda>s. s\<lparr>previous_distance := p\<rparr>)
         (classify_try env t s)"
  by (simp add: classify_try_def Let_def split: capture_outcome.splits option.splits prod.splits)

lemma classify_waste_pd:
  "classify_waste cfg env (s\<lparr>previous_distance := p\<rparr>)
     = (classify_waste cfg env s)\<lparr>previous_distance := p\<rparr>"
  by (simp add: classify_waste_def classify_try_pd Let_def split: sum.splits)

lemma camera_step_pd:
  "camera_step cfg env (s\<lparr>previous_distance := p\<rparr>)
     = map_sum (\<lambda>s. s\<lparr>previous_distance := p\<rparr>) (\<lambda>s. s\<lparr>previous_distance := p\<rparr>)
         (camera_step cfg env s)"
  by (simp add: camera_step_def classify_waste_pd Let_def)

lemma lights_step_pd:
  "lights_step env (s\<lparr>previous_distance := p\<rparr>) = (lights_step env s)\<lparr>previous_distance := p\<rparr>"
  by (simp add: lights_step_def turn_off_lights_def should_lights_be_on_def)

lemma loop_iteration_pd:
  "loop_iteration cfg env (s\<lparr>previous_distance := p\<rparr>)
     = (loop_iteration cfg env s)\<lparr>previous_distance := p\<rparr>"
  by (simp add: loop_iteration_def detection_step_pd camera_step_pd lights_step_pd
           split: sum.splits)

lemma classify_waste_keeps_pd:
  "previous_distance (classify_waste cfg env s) = previous_distance s"
  by (simp add: classify_waste_def classify_try_def Let_def
           split: capture_outcome.splits option.splits prod.splits)

lemma loop_iteration_keeps_pd:
  "previous_distance (loop_iteration cfg env s) = previous_distance s"
proof -
  have d: "previous_distance (detection_step cfg env s) = previous_distance s"
    by (simp add: detection_step_def turn_on_lights_def Let_def split: option.splits)
  have c: "case camera_step cfg env s' of
             Inl s'' \<Rightarrow> previous_distance s'' = previous_distance s'
           | Inr s'' \<Rightarrow> previous_distance s'' = previous_distance s'" for s'
    by (simp add: camera_step_def classify_waste_keeps_pd Let_def)
  have l: "previous_distance (lights_step env s') = previous_distance s'" for s'
    by (simp add: lights_step_def turn_off_lights_def)
  from c [of "detection_step cfg env s"] d l show ?thesis
    by (simp add: loop_iteration_def split: sum.splits)
qed

text \<open>
  C10. Two runs of one loop iteration from states that differ only in
  \<open>previous_distance\<close> end in states that differ only in \<open>previous_distance\<close>: the whole
  resulting state, and in particular the camera expiry and the light expiry set by the
  detection step, do not depend on it. The iteration never writes \<open>previous_distance\<close>
  (it does not call \<open>detect_motion\<close>).
\<close>

theorem C10_iteration_independent_of_previous_distance:
  "loop_iteration cfg env (s\<lparr>previous_distance := p\<rparr>)
     = (loop_iteration cfg env s)\<lparr>previous_distance := p\<rparr> \<and>
   camera_active_until (detection_step cfg env (s\<lparr>previous_distance := p\<rparr>))
     = camera_active_until (detection_step cfg env s) \<and>
   lights_on_until (detection_step cfg env (s\<lparr>previous_distance := p\<rparr>))
     = lights_on_until (detection_step cfg env s) \<and>
   previous_distance (loop_iteration cfg env s) = previous_distance s"
  by (simp add: loop_iteration_pd detection_step_pd loop_iteration_keeps_pd)

theorem C10_witness:
  "camera_active_until
     (loop_iteration module_config (tick_at 100 (Some 40) (Some 1) example_camera_env)
        ((init_state True)\<lparr>previous_distance := Some 7\<rparr>)) =
   camera_active_until
     (loop_iteration module_config (tick_at 100 (Some 40) (Some 1) example_camera_env)
        (init_state True)) \<and>
   previous_distance
     (loop_iteration module_config (tick_at 100 (Some 40) (Some 1) example_camera_env)
        ((init_state True)\<lparr>previous_distance := Some 7\<rparr>)) = Some 7"
  using C10_iteration_independent_of_previous_distance
          [where cfg = module_config
             and env = "tick_at 100 (Some 40) (Some 1) example_camera_env"
             and s = "init_state True" and p = "Some 7"]
  by simp

end
